theory Spec2Isabelle
  imports Main
begin

section \<open>Strings\<close>

text \<open>The line feed character, \<^verbatim>\<open>"\n"\<close> in the source.\<close>

abbreviation NL :: char where "NL \<equiv> CHR 0x0A"

text \<open>
  \<^verbatim>\<open>String.prototype.trim\<close> removes white space and line terminators from both ends.
  Strings are sequences of 8-bit code units here, so the white space of ECMAScript is
  the part of it below 256: TAB, LF, VT, FF, CR, SP and NBSP.
\<close>

definition isWhiteSpace :: "char \<Rightarrow> bool" where
  "isWhiteSpace c = (of_char c \<in> {9, 10, 11, 12, 13, 32, 160 :: nat})"

definition trim :: "string \<Rightarrow> string" where
  "trim s = rev (dropWhile isWhiteSpace (rev (dropWhile isWhiteSpace s)))"

text \<open>
  \<^verbatim>\<open>s.split("\n")\<close> and \<^verbatim>\<open>ar.join("\n")\<close>. Splitting never returns
  the empty array: the empty string splits into one empty line.
\<close>

fun splitNL :: "string \<Rightarrow> string list" where
  "splitNL [] = [[]]"
| "splitNL (c # cs) =
     (if c = NL then [] # splitNL cs
      else case splitNL cs of
             [] \<Rightarrow> [[c]]
           | l # ls \<Rightarrow> (c # l) # ls)"

fun joinNL :: "string list \<Rightarrow> string" where
  "joinNL [] = []"
| "joinNL [x] = x"
| "joinNL (x # y # ys) = x @ NL # joinNL (y # ys)"

text \<open>\<^verbatim>\<open>s.startsWith(p)\<close> and \<^verbatim>\<open>s.endsWith(p)\<close>.\<close>

definition startsWith :: "string \<Rightarrow> string \<Rightarrow> bool" where
  "startsWith s p = (take (length p) s = p)"

definition endsWith :: "string \<Rightarrow> string \<Rightarrow> bool" where
  "endsWith s p = (length p \<le> length s \<and> drop (length s - length p) s = p)"

text \<open>
  \<^verbatim>\<open>s.replace(pattern, replacement)\<close> with a string pattern: the first occurrence only.
\<close>

fun replaceFirst :: "string \<Rightarrow> string \<Rightarrow> string \<Rightarrow> string" where
  "replaceFirst pat rep [] = (if pat = [] then rep else [])"
| "replaceFirst pat rep (c # cs) =
     (if startsWith (c # cs) pat then rep @ drop (length pat) (c # cs)
      else c # replaceFirst pat rep cs)"

subsection \<open>The blank-line formatter\<close>

text \<open>
  The callback of \<^verbatim>\<open>flatMap\<close> in \<^verbatim>\<open>formatConfig\<close>, with its arguments
  \<^verbatim>\<open>(line, i, ar)\<close>; the line is \<^verbatim>\<open>ar[i]\<close>. \<^verbatim>\<open>ar[i - 1]\<close> is
  \<^verbatim>\<open>undefined\<close> at \<open>i = 0\<close>, which is \<open>None\<close> here.
\<close>

definition flatMapLine :: "string list \<Rightarrow> nat \<Rightarrow> string list" where
  "flatMapLine ar i =
     (let line = ar ! i in
      if trim line = [] then []
      else
        let maybePreviousLine = (if i = 0 then None else Some (ar ! (i - 1)));
            isComment = startsWith line ''#'';
            isPreviousLineComment =
              (case maybePreviousLine of None \<Rightarrow> False | Some p \<Rightarrow> startsWith p ''#'');
            addNewLineBeforeBlockOfComments = (isComment \<and> \<not> isPreviousLineComment)
        in if addNewLineBeforeBlockOfComments then [[], line]
           else
             let isFirstLine = (maybePreviousLine = None);
                 isIndentedCode = startsWith line '' '';
                 doNotAddNewLine =
                   (isFirstLine \<or> isIndentedCode \<or> isComment \<or> isPreviousLineComment)
             in if doNotAddNewLine then [line] else [[], line])"

definition formatConfig :: "string \<Rightarrow> string" where
  "formatConfig configString =
     (let ar = splitNL (trim configString);
          formattedConfig = joinNL (concat (map (flatMapLine ar) [0..<length ar]))
      in trim formattedConfig @ [NL])"

section \<open>Values of the host language\<close>

text \<open>
  A number is \<^verbatim>\<open>NaN\<close> or an integer: versions are whole numbers, and \<^verbatim>\<open>NaN\<close> is
  what \<^verbatim>\<open>Number\<close> returns for a string that is not a numeric literal. The
  \<^verbatim>\<open>version\<close> of a config is a number or a string; \<^verbatim>\<open>undefined\<close> is the
  version of an object that has none.
\<close>

datatype jsnumber = NaN | Finite int

datatype jsvalue = JUndefined | JNumber jsnumber | JString string

text \<open>
  \<^verbatim>\<open>Number(v)\<close>. The conversion of a string is the runtime's \<^verbatim>\<open>StringToNumber\<close>,
  a parameter of the model.
\<close>

fun Number :: "(string \<Rightarrow> jsnumber) \<Rightarrow> jsvalue \<Rightarrow> jsnumber" where
  "Number stn JUndefined = NaN"
| "Number stn (JNumber n) = n"
| "Number stn (JString s) = stn s"

text \<open>\<^verbatim>\<open>x < ar.length\<close>: every comparison with \<^verbatim>\<open>NaN\<close> is false.\<close>

fun lessThanLength :: "jsnumber \<Rightarrow> nat \<Rightarrow> bool" where
  "lessThanLength NaN n = False"
| "lessThanLength (Finite r) n = (r < int n)"

text \<open>
  \<^verbatim>\<open>ar.slice(start)\<close>: \<^verbatim>\<open>NaN\<close> counts as 0, a negative start counts from the
  end of the array, and the start is clamped to the array.
\<close>

fun sliceFrom :: "jsnumber \<Rightarrow> 'b list \<Rightarrow> 'b list" where
  "sliceFrom NaN xs = xs"
| "sliceFrom (Finite r) xs =
     (if r < 0 then drop (nat (int (length xs) + r)) xs else drop (nat r) xs)"

section \<open>Configs, schemas, options\<close>

text \<open>
  \<^verbatim>\<open>BaseConfig\<close>: a \<^verbatim>\<open>version\<close> and the other properties, whose
  shape the engine never inspects.
\<close>

record 'a config =
  version :: jsvalue
  props :: 'a

text \<open>
  A schema, as far as the engine uses it: the validator that Ajv compiles from it, its
  \<^verbatim>\<open>description\<close> and the text \<^verbatim>\<open>jsonStringify\<close> makes of it.
\<close>

record 'a schema =
  accepts :: "'a config \<Rightarrow> bool"
  description :: "string option"
  jsonText :: string

text \<open>
  \<^verbatim>\<open>InitConfigOptions\<close>. The two path getters are given by the paths they return.
  A \<^verbatim>\<open>ConfigValidateFunction\<close> returns \<^verbatim>\<open>true\<close> (\<open>None\<close>) or an error
  string.
\<close>

record 'a options =
  allSchemas :: "'a schema list"
  latestSchema :: "'a schema"
  migrations :: "('a config \<Rightarrow> 'a config) list"
  name :: string
  getConfigOrConfigDirPath :: string
  getSchemaDirPath :: "string option"
  validate :: "('a config \<Rightarrow> string \<Rightarrow> string option) option"

text \<open>
  The collaborators from outside the repository, as total functions: the \<^verbatim>\<open>yaml\<close>
  and \<^verbatim>\<open>yaml-diff-patch\<close> packages, \<^verbatim>\<open>node:path\<close>, the runtime's conversion of
  strings to numbers, the object \<^verbatim>\<open>{}\<close> and the \<^verbatim>\<open>docsInConfigs\<close> flag of the
  user's global config (\<^verbatim>\<open>userConfig?.docsInConfigs ?? false\<close>).
\<close>

record 'a env =
  parse :: "string \<Rightarrow> 'a config"
  yamlDiffPatch :: "string \<Rightarrow> 'a config \<Rightarrow> 'a config \<Rightarrow> string"
  StringToNumber :: "string \<Rightarrow> jsnumber"
  pathJoin :: "string \<Rightarrow> string \<Rightarrow> string"
  pathDirname :: "string \<Rightarrow> string"
  pathRelative :: "string \<Rightarrow> string \<Rightarrow> string"
  emptyObject :: "'a config"
  docsInConfigs :: bool

text \<open>
  Modelled from the spec: the constants of \<^verbatim>\<open>const.js\<close>, which is not among the
  sources. The spec names the extensions \<^verbatim>\<open>.yaml\<close> and \<^verbatim>\<open>.yml\<close> and the
  \<^verbatim>\<open>schemas/\<close> subdirectory.
\<close>

definition YAML_EXT :: string where
  "YAML_EXT = ''yaml''"

definition YML_EXT :: string where
  "YML_EXT = ''yml''"

definition SCHEMAS_DIR_NAME :: string where
  "SCHEMAS_DIR_NAME = ''schemas''"

section \<open>The file system and the errors\<close>

text \<open>
  The files are a map from paths to contents. Reading a path that has no file throws;
  writing always succeeds, and so does \<^verbatim>\<open>mkdir\<close>, which the map has no use for.
  The world also keeps the calls made, in order: the paths read, the writes, and the
  migrations invoked, each with its index in \<^verbatim>\<open>migrations\<close> and its argument.
\<close>

record 'a world =
  files :: "string \<rightharpoonup> string"
  readLog :: "string list"
  writeLog :: "(string \<times> string) list"
  migrationLog :: "(nat \<times> 'a config) list"

text \<open>
  \<open>Fatal\<close> is \<^verbatim>\<open>commandObj.error\<close>, the reporter that ends the process;
  \<open>Thrown\<close> is an \<^verbatim>\<open>Error\<close> thrown to the caller. The messages keep the
  source's first words and the path, without colours and without the list of schema
  errors.
\<close>

datatype error = Fatal string | Thrown string

definition readFile :: "string \<Rightarrow> 'a world \<Rightarrow> string option \<times> 'a world" where
  "readFile path w = (files w path, w\<lparr>readLog := readLog w @ [path]\<rparr>)"

definition writeFile :: "string \<Rightarrow> string \<Rightarrow> 'a world \<Rightarrow> 'a world" where
  "writeFile path content w =
     w\<lparr>files := (files w)(path \<mapsto> content), writeLog := writeLog w @ [(path, content)]\<rparr>"

section \<open>The schema file\<close>

definition schemaPathOf :: "'a env \<Rightarrow> 'a options \<Rightarrow> string \<Rightarrow> string" where
  "schemaPathOf e opts configDirPath =
     pathJoin e
       (pathJoin e
          (case getSchemaDirPath opts of None \<Rightarrow> configDirPath | Some d \<Rightarrow> d)
          SCHEMAS_DIR_NAME)
       (name opts @ ''.json'')"

definition correctSchemaContent :: "'a options \<Rightarrow> string" where
  "correctSchemaContent opts = jsonText (latestSchema opts) @ [NL]"

text \<open>
  \<^verbatim>\<open>ensureSchema\<close>: the schema file is written when reading it fails or when the
  assertion on its content fails. It returns the path of the schema file relative to
  the config's directory.
\<close>

definition ensureSchema :: "'a env \<Rightarrow> 'a options \<Rightarrow> string \<Rightarrow> 'a world \<Rightarrow> string \<times> 'a world" where
  "ensureSchema e opts configDirPath w =
     (let schemaPath = schemaPathOf e opts configDirPath;
          (schemaContent, w1) = readFile schemaPath w;
          w2 = (if schemaContent = Some (correctSchemaContent opts) then w1
                else writeFile schemaPath (correctSchemaContent opts) w1)
      in (pathRelative e configDirPath schemaPath, w2))"

section \<open>Saving\<close>

definition saveConfig :: "string \<Rightarrow> string \<Rightarrow> 'a world \<Rightarrow> string \<times> 'a world" where
  "saveConfig configPath migratedConfigString w =
     (let configToSave = formatConfig migratedConfigString
      in (configToSave, writeFile configPath configToSave w))"

section \<open>Migration\<close>

text \<open>
  The loop of \<^verbatim>\<open>migrateConfig\<close> over a slice of the migrations. Each migration
  comes with its index in \<^verbatim>\<open>migrations\<close>, which goes to the log with the argument.
\<close>

definition enumerate_list :: "'b list \<Rightarrow> (nat \<times> 'b) list" where
  "enumerate_list xs = zip [0..<length xs] xs"

fun applyMigrations ::
  "(nat \<times> ('a config \<Rightarrow> 'a config)) list \<Rightarrow> 'a config \<Rightarrow> 'a world \<Rightarrow> 'a config \<times> 'a world" where
  "applyMigrations [] migratedConfig w = (migratedConfig, w)"
| "applyMigrations ((i, migration) # rest) migratedConfig w =
     applyMigrations rest (migration migratedConfig)
       (w\<lparr>migrationLog := migrationLog w @ [(i, migratedConfig)]\<rparr>)"

text \<open>
  \<^verbatim>\<open>validate !== undefined && (await validate(config, configPath))\<close>, kept when it is
  a string.
\<close>

definition maybeValidationError ::
  "'a options \<Rightarrow> 'a config \<Rightarrow> string \<Rightarrow> string option" where
  "maybeValidationError opts c configPath =
     (case validate opts of None \<Rightarrow> None | Some v \<Rightarrow> v c configPath)"

definition migrateConfig ::
  "'a env \<Rightarrow> 'a options \<Rightarrow> string \<Rightarrow> string \<Rightarrow> 'a config \<Rightarrow> 'a world \<Rightarrow>
   (error + 'a config \<times> string) \<times> 'a world" where
  "migrateConfig e opts configString configPath c w =
     (let (migratedConfig, w1) =
            applyMigrations
              (sliceFrom (Number (StringToNumber e) (version c))
                 (enumerate_list (migrations opts))) c w;
          migratedConfigString =
            yamlDiffPatch e configString (parse e configString) migratedConfig;
          latestConfig = parse e migratedConfigString
      in if \<not> accepts (latestSchema opts) latestConfig
         then (Inl (Fatal (''Couldn't migrate config '' @ configPath)), w1)
         else case maybeValidationError opts latestConfig configPath of
           Some err \<Rightarrow>
             (Inl (Fatal (''Invalid config '' @ configPath @ '' after successful migration. ''
                          @ migratedConfigString @ '' Errors: '' @ err)), w1)
         | None \<Rightarrow>
             let w2 = (if configString \<noteq> migratedConfigString
                       then snd (saveConfig configPath migratedConfigString w1) else w1)
             in (Inr (latestConfig, migratedConfigString), w2))"

definition ensureConfigIsValidLatest ::
  "'a options \<Rightarrow> string \<Rightarrow> 'a config \<Rightarrow> error + 'a config" where
  "ensureConfigIsValidLatest opts configPath c =
     (if \<not> accepts (latestSchema opts) c
      then Inl (Fatal (''Invalid config '' @ configPath))
      else case maybeValidationError opts c configPath of
        Some err \<Rightarrow> Inl (Fatal (''Invalid config '' @ configPath @ ''. Errors: '' @ err))
      | None \<Rightarrow> Inr c)"

section \<open>The loader\<close>

definition getConfigPath :: "'a env \<Rightarrow> string \<Rightarrow> string \<Rightarrow> string \<times> string" where
  "getConfigPath e configOrConfigDirPath configName =
     (if endsWith configOrConfigDirPath YAML_EXT \<or> endsWith configOrConfigDirPath YML_EXT
      then (configOrConfigDirPath, pathDirname e configOrConfigDirPath)
      else (pathJoin e configOrConfigDirPath configName, configOrConfigDirPath))"

definition configFullName :: "'a options \<Rightarrow> string" where
  "configFullName opts = name opts @ ''.'' @ YAML_EXT"

definition schemaPathCommentStart :: string where
  "schemaPathCommentStart = ''# yaml-language-server: $schema=''"

definition getSchemaPathComment ::
  "'a env \<Rightarrow> 'a options \<Rightarrow> string \<Rightarrow> 'a world \<Rightarrow> string \<times> 'a world" where
  "getSchemaPathComment e opts configDirPath w =
     (let (schemaRelativePath, w1) = ensureSchema e opts configDirPath w
      in (schemaPathCommentStart @ schemaRelativePath, w1))"

text \<open>
  \<^verbatim>\<open>newConfigPath\<close>: the path with the other extension.
  \<^verbatim>\<open>configPath.slice(0, -n)\<close> drops the last \<open>n\<close> characters.
\<close>

definition newConfigPath :: "string \<Rightarrow> string" where
  "newConfigPath configPath =
     (let endsWithYaml = endsWith configPath (''.'' @ YAML_EXT)
      in take (length configPath - length (if endsWithYaml then YAML_EXT else YML_EXT)) configPath
         @ (if endsWithYaml then YML_EXT else YAML_EXT))"

text \<open>
  The inner \<^verbatim>\<open>try\<close> of the loader: the file content and the path it was read
  from, or \<open>None\<close> when the block throws. \<open>hasDefault\<close> is
  \<^verbatim>\<open>getDefaultConfig !== undefined\<close>.
\<close>

definition readConfigFile ::
  "string \<Rightarrow> bool \<Rightarrow> 'a world \<Rightarrow> (string \<times> string) option \<times> 'a world" where
  "readConfigFile configPath hasDefault w =
     (case readFile configPath w of
        (Some fileContent, w1) \<Rightarrow> (Some (fileContent, configPath), w1)
      | (None, w1) \<Rightarrow>
          let endsWithYaml = endsWith configPath (''.'' @ YAML_EXT);
              endsWithYml = endsWith configPath (''.'' @ YML_EXT)
          in if \<not> endsWithYaml \<and> \<not> endsWithYml \<and> hasDefault then (None, w1)
             else case readFile (newConfigPath configPath) w1 of
                    (Some fileContent, w2) \<Rightarrow> (Some (fileContent, newConfigPath configPath), w2)
                  | (None, w2) \<Rightarrow> (None, w2))"

text \<open>The config string made of the file content and the schema path comment.\<close>

definition withSchemaPathComment :: "string \<Rightarrow> string \<Rightarrow> string" where
  "withSchemaPathComment schemaPathComment fileContent =
     (if startsWith fileContent schemaPathCommentStart
      then trim (joinNL (schemaPathComment # tl (splitNL fileContent))) @ [NL]
      else schemaPathComment @ [NL] @ trim fileContent @ [NL])"

text \<open>
  The outer \<^verbatim>\<open>try\<close> of the loader: the resolved path and the config string, or
  \<open>None\<close> when the block throws.
\<close>

definition readingExisting ::
  "'a env \<Rightarrow> 'a options \<Rightarrow> string \<Rightarrow> string \<Rightarrow> bool \<Rightarrow> 'a world \<Rightarrow>
   (string \<times> string) option \<times> 'a world" where
  "readingExisting e opts configPath configDirPath hasDefault w =
     (case readConfigFile configPath hasDefault w of
        (None, w1) \<Rightarrow> (None, w1)
      | (Some (fileContent, configPath'), w1) \<Rightarrow>
          let (schemaPathComment, w2) = getSchemaPathComment e opts configDirPath w1;
              configString = withSchemaPathComment schemaPathComment fileContent;
              w3 = (if configString \<noteq> fileContent
                    then snd (saveConfig configPath' configString w2) else w2)
          in (Some (configPath', configString), w3))"

text \<open>
  The \<^verbatim>\<open>catch\<close> of the loader when there is a default config: \<open>defConf\<close> is
  the text that \<^verbatim>\<open>getDefaultConfig\<close> returns.
\<close>

definition creatingDefault ::
  "'a env \<Rightarrow> 'a options \<Rightarrow> string \<Rightarrow> string \<Rightarrow> string \<Rightarrow> 'a world \<Rightarrow> string \<times> 'a world" where
  "creatingDefault e opts configPath configDirPath defConf w =
     (let documentationLinkComment =
            ''# Documentation: https://github.com/fluencelabs/cli/tree/main/docs/configs/''
            @ replaceFirst (''.'' @ YAML_EXT) [] (name opts) @ ''.md'';
          (schemaPathComment, w1) = getSchemaPathComment e opts configDirPath w;
          descriptionText =
            (case description (latestSchema opts) of
               Some d \<Rightarrow> [NL, NL] @ ''# '' @ d
             | None \<Rightarrow> []);
          configString =
            (if docsInConfigs e
             then schemaPathComment @ [NL, NL] @ documentationLinkComment @ [NL] @ defConf
             else yamlDiffPatch e
                    (schemaPathComment @ [NL] @ descriptionText @ [NL, NL]
                     @ documentationLinkComment @ [NL])
                    (emptyObject e) (parse e defConf))
      in (configString, snd (saveConfig configPath configString w1)))"

text \<open>\<^verbatim>\<open>oneOf: allSchemas\<close>: exactly one of the schemas accepts the config.\<close>

definition validateAllConfigVersions :: "'a options \<Rightarrow> 'a config \<Rightarrow> bool" where
  "validateAllConfigVersions opts c =
     (length (filter (\<lambda>s. accepts s c) (allSchemas opts)) = 1)"

text \<open>
  \<^verbatim>\<open>InitializedReadonlyConfig\<close> and \<^verbatim>\<open>InitializedConfig\<close>: the data
  properties, and what the methods close over: \<^verbatim>\<open>$getPath\<close> returns \<open>hPath\<close>,
  \<^verbatim>\<open>$getConfigString\<close> returns \<open>hConfigString\<close>, \<^verbatim>\<open>$validateLatest\<close> is
  \<open>hValidateLatest\<close>.
\<close>

record 'a handle =
  hData :: "'a config"
  hPath :: string
  hConfigString :: string
  hValidateLatest :: "'a config \<Rightarrow> bool"

text \<open>
  The loader from the parsing of the config string on: validation against all
  versions, then migration or the check against the latest schema.
\<close>

definition validating ::
  "'a env \<Rightarrow> 'a options \<Rightarrow> string \<Rightarrow> string \<Rightarrow> 'a world \<Rightarrow>
   (error + 'a handle option) \<times> 'a world" where
  "validating e opts configPath configString w =
     (let c = parse e configString
      in if \<not> validateAllConfigVersions opts c
         then (Inl (Fatal (''Invalid config at '' @ configPath)), w)
         else if lessThanLength (Number (StringToNumber e) (version c)) (length (migrations opts))
         then (case migrateConfig e opts configString configPath c w of
                 (Inl err, w1) \<Rightarrow> (Inl err, w1)
               | (Inr (latestConfig, configString'), w1) \<Rightarrow>
                   (Inr (Some \<lparr>hData = latestConfig, hPath = configPath,
                                hConfigString = configString',
                                hValidateLatest = accepts (latestSchema opts)\<rparr>), w1))
         else (case ensureConfigIsValidLatest opts configPath c of
                 Inl err \<Rightarrow> (Inl err, w)
               | Inr latestConfig \<Rightarrow>
                   (Inr (Some \<lparr>hData = latestConfig, hPath = configPath,
                                hConfigString = configString,
                                hValidateLatest = accepts (latestSchema opts)\<rparr>), w)))"

text \<open>
  The function that \<^verbatim>\<open>getReadonlyConfigInitFunction(options, getDefaultConfig)\<close>
  returns. \<open>getDefaultConfig\<close> is the text of the default config when there is a
  generator. The result is an error, \<^verbatim>\<open>null\<close> (\<open>None\<close>) or the handle.
\<close>

definition getReadonlyConfigInitFunction ::
  "'a env \<Rightarrow> 'a options \<Rightarrow> string option \<Rightarrow> 'a world \<Rightarrow>
   (error + 'a handle option) \<times> 'a world" where
  "getReadonlyConfigInitFunction e opts getDefaultConfig w =
     (let (configPath, configDirPath) =
            getConfigPath e (getConfigOrConfigDirPath opts) (configFullName opts)
      in case readingExisting e opts configPath configDirPath (getDefaultConfig \<noteq> None) w of
           (Some (configPath', configString), w1) \<Rightarrow>
             validating e opts configPath' configString w1
         | (None, w1) \<Rightarrow>
             (case getDefaultConfig of
                None \<Rightarrow> (Inr None, w1)
              | Some defConf \<Rightarrow>
                  let (configString, w2) =
                        creatingDefault e opts configPath configDirPath defConf w1
                  in validating e opts configPath configString w2))"

section \<open>Mutable handles and the instance cache\<close>

text \<open>
  The process: the world, the objects created by the init function (a handle is
  referred to by its position in \<open>handles\<close>) and the map
  \<^verbatim>\<open>initializedConfigs\<close> from paths to handles.
\<close>

record 'a process =
  pworld :: "'a world"
  handles :: "'a handle list"
  initializedConfigs :: "string \<rightharpoonup> nat"

text \<open>
  The function that \<^verbatim>\<open>getConfigInitFunction(options, getDefaultConfig)\<close> returns:
  an error, \<^verbatim>\<open>null\<close> or the reference of the handle.
\<close>

definition getConfigInitFunction ::
  "'a env \<Rightarrow> 'a options \<Rightarrow> string option \<Rightarrow> 'a process \<Rightarrow>
   (error + nat option) \<times> 'a process" where
  "getConfigInitFunction e opts getDefaultConfig p =
     (let configPath =
            fst (getConfigPath e (getConfigOrConfigDirPath opts) (configFullName opts))
      in case initializedConfigs p configPath of
           Some previouslyInitializedConfig \<Rightarrow> (Inr (Some previouslyInitializedConfig), p)
         | None \<Rightarrow>
             (case getReadonlyConfigInitFunction e opts getDefaultConfig (pworld p) of
                (Inl err, w1) \<Rightarrow> (Inl err, p\<lparr>pworld := w1\<rparr>)
              | (Inr None, w1) \<Rightarrow> (Inr None, p\<lparr>pworld := w1\<rparr>)
              | (Inr (Some initializedReadonlyConfig), w1) \<Rightarrow>
                  let configPath' = hPath initializedReadonlyConfig;
                      r = length (handles p)
                  in (Inr (Some r),
                      p\<lparr>pworld := w1,
                        handles := handles p @ [initializedReadonlyConfig],
                        initializedConfigs := (initializedConfigs p)(configPath' \<mapsto> r)\<rparr>)))"

text \<open>
  An assignment to the data properties of a handle, through a reference to it.
\<close>

definition assignData :: "nat \<Rightarrow> 'a config \<Rightarrow> 'a process \<Rightarrow> 'a process" where
  "assignData r d p =
     (if r < length (handles p)
      then p\<lparr>handles := (handles p)[r := (handles p ! r)\<lparr>hData := d\<rparr>]\<rparr>
      else p)"

text \<open>
  \<^verbatim>\<open>$commit\<close> of the handle at reference \<open>r\<close>. \<^verbatim>\<open>removeProperties\<close> leaves
  the data properties of the handle. A reference to no object does not occur in the
  program; calling a method of \<^verbatim>\<open>undefined\<close> throws.
\<close>

definition commit :: "'a env \<Rightarrow> nat \<Rightarrow> 'a process \<Rightarrow> (error + unit) \<times> 'a process" where
  "commit e r p =
     (if \<not> r < length (handles p) then (Inl (Thrown ''TypeError''), p)
      else
        let this = handles p ! r;
            c = hData this;
            configString = hConfigString this;
            newConfigString =
              trim (yamlDiffPatch e configString (parse e configString) c) @ [NL]
        in if \<not> hValidateLatest this c
           then (Inl (Thrown (''Couldn't save config '' @ hPath this)), p)
           else if configString \<noteq> newConfigString
           then let (saved, w1) = saveConfig (hPath this) newConfigString (pworld p)
                in (Inr (),
                    p\<lparr>pworld := w1,
                      handles := (handles p)[r := this\<lparr>hConfigString := saved\<rparr>]\<rparr>)
           else (Inr (), p))"

section \<open>Notions used in the statements\<close>

text \<open>
  What the callback returns for a line, given the line before it in the array, and
  the formatter's \<^verbatim>\<open>flatMap\<close> as a recursion over the lines.
\<close>

definition emitLine :: "string option \<Rightarrow> string \<Rightarrow> string list" where
  "emitLine prev line =
     (if trim line = [] then []
      else if startsWith line ''#'' \<and> \<not> (case prev of None \<Rightarrow> False | Some p \<Rightarrow> startsWith p ''#'')
      then [[], line]
      else if prev = None \<or> startsWith line '' '' \<or> startsWith line ''#''
              \<or> (case prev of None \<Rightarrow> False | Some p \<Rightarrow> startsWith p ''#'')
      then [line] else [[], line])"

fun fmtFrom :: "string option \<Rightarrow> string list \<Rightarrow> string list" where
  "fmtFrom prev [] = []"
| "fmtFrom prev (l # ls) = emitLine prev l @ fmtFrom (Some l) ls"

text \<open>A string that \<^verbatim>\<open>trim\<close> leaves as it is.\<close>

definition trimmed :: "string \<Rightarrow> bool" where
  "trimmed s = (s = [] \<or> (\<not> isWhiteSpace (hd s) \<and> \<not> isWhiteSpace (last s)))"

text \<open>
  What an operation added to the logs of the world it started from.
\<close>

definition newWrites :: "'a world \<Rightarrow> 'a world \<Rightarrow> (string \<times> string) list" where
  "newWrites w w' = drop (length (writeLog w)) (writeLog w')"

definition newReads :: "'a world \<Rightarrow> 'a world \<Rightarrow> string list" where
  "newReads w w' = drop (length (readLog w)) (readLog w')"

text \<open>The write that \<^verbatim>\<open>ensureSchema\<close> makes when the schema file is not up to date.\<close>

definition schemaWrite :: "'a env \<Rightarrow> 'a options \<Rightarrow> string \<Rightarrow> string \<times> string" where
  "schemaWrite e opts configDirPath =
     (schemaPathOf e opts configDirPath, correctSchemaContent opts)"

text \<open>
  The lines of a text that are not blank, and the shape of a formatted file: the text
  is a trimmed text followed by one line feed, and in it no blank line follows a
  blank line.
\<close>

definition nonBlankLines :: "string \<Rightarrow> string list" where
  "nonBlankLines s = filter (\<lambda>l. trim l \<noteq> []) (splitNL s)"

fun noConsecutiveBlankLines :: "string list \<Rightarrow> bool" where
  "noConsecutiveBlankLines (x # y # ys) =
     ((trim x \<noteq> [] \<or> trim y \<noteq> []) \<and> noConsecutiveBlankLines (y # ys))"
| "noConsecutiveBlankLines _ = True"

definition wellFormatted :: "string \<Rightarrow> bool" where
  "wellFormatted c =
     (c \<noteq> [] \<and> last c = NL \<and> trimmed (butlast c)
      \<and> noConsecutiveBlankLines (splitNL (butlast c)))"

text \<open>
  An operation only appends to the log of writes, and what it appends satisfies
  \<open>P\<close>.
\<close>

definition extendsWrites ::
  "(string \<times> string \<Rightarrow> bool) \<Rightarrow> 'a world \<Rightarrow> 'a world \<Rightarrow> bool" where
  "extendsWrites P w w' = (\<exists>ws. writeLog w' = writeLog w @ ws \<and> list_all P ws)"

text \<open>\<^verbatim>\<open>String.prototype.trimEnd\<close>: white space removed from the end only.\<close>

definition trimEnd :: "string \<Rightarrow> string" where
  "trimEnd s = rev (dropWhile isWhiteSpace (rev s))"

section \<open>A small instance for examples\<close>

text \<open>
  An instance of the collaborators on which the model can be run: configs are a
  \<^verbatim>\<open>version\<close> line and other lines, parsing keeps the lines that are neither
  comments nor blank, and the patch writes the comments of the old text, the version
  and the lines of the new value. The options have four versions, 0 to 3, and the
  three migrations between them.
\<close>

definition exampleVersionOfText :: "string \<Rightarrow> jsvalue" where
  "exampleVersionOfText v =
     (if v = ''0'' then JNumber (Finite 0)
      else if v = ''1'' then JNumber (Finite 1)
      else if v = ''2'' then JNumber (Finite 2)
      else if v = ''3'' then JNumber (Finite 3)
      else if v = ''-1'' then JNumber (Finite (- 1))
      else JString v)"

definition exampleTextOfVersion :: "jsvalue \<Rightarrow> string" where
  "exampleTextOfVersion v =
     (if v = JNumber (Finite 0) then ''0''
      else if v = JNumber (Finite 1) then ''1''
      else if v = JNumber (Finite 2) then ''2''
      else if v = JNumber (Finite 3) then ''3''
      else if v = JNumber (Finite (- 1)) then ''-1''
      else case v of JString s \<Rightarrow> s | _ \<Rightarrow> [])"

definition exampleParse :: "string \<Rightarrow> string list config" where
  "exampleParse s =
     \<lparr>version =
        (case filter (\<lambda>l. startsWith l ''version: '') (splitNL s) of
           [] \<Rightarrow> JUndefined
         | l # _ \<Rightarrow> exampleVersionOfText (drop 9 l)),
      props =
        filter (\<lambda>l. \<not> startsWith l ''version: '' \<and> \<not> startsWith l ''#'' \<and> trim l \<noteq> [])
          (splitNL s)\<rparr>"

definition exampleYamlDiffPatch ::
  "string \<Rightarrow> string list config \<Rightarrow> string list config \<Rightarrow> string" where
  "exampleYamlDiffPatch t old new =
     joinNL (filter (\<lambda>l. startsWith l ''#'') (splitNL t)
             @ (if version new = JUndefined then []
                else [''version: '' @ exampleTextOfVersion (version new)])
             @ props new) @ [NL]"

definition exampleStringToNumber :: "string \<Rightarrow> jsnumber" where
  "exampleStringToNumber s =
     (case exampleVersionOfText s of JNumber n \<Rightarrow> n | _ \<Rightarrow> NaN)"

definition exampleDirname :: "string \<Rightarrow> string" where
  "exampleDirname p = rev (drop 1 (dropWhile (\<lambda>c. c \<noteq> CHR ''/'') (rev p)))"

definition exampleEnv :: "string list env" where
  "exampleEnv =
     \<lparr>parse = exampleParse,
      yamlDiffPatch = exampleYamlDiffPatch,
      StringToNumber = exampleStringToNumber,
      pathJoin = (\<lambda>a b. a @ ''/'' @ b),
      pathDirname = exampleDirname,
      pathRelative = (\<lambda>from to. drop (Suc (length from)) to),
      emptyObject = \<lparr>version = JUndefined, props = []\<rparr>,
      docsInConfigs = False\<rparr>"

definition exampleSchema :: "int \<Rightarrow> string list schema" where
  "exampleSchema k =
     \<lparr>accepts = (\<lambda>c. version c = JNumber (Finite k)),
      description = None,
      jsonText = ''{}''\<rparr>"

definition exampleMigration :: "int \<Rightarrow> string list config \<Rightarrow> string list config" where
  "exampleMigration k c = c\<lparr>version := JNumber (Finite (k + 1))\<rparr>"

definition exampleOptions :: "string \<Rightarrow> string list options" where
  "exampleOptions path =
     \<lparr>allSchemas = [exampleSchema 0, exampleSchema 1, exampleSchema 2, exampleSchema 3],
      latestSchema = exampleSchema 3,
      migrations = [exampleMigration 0, exampleMigration 1, exampleMigration 2],
      name = ''provider'',
      getConfigOrConfigDirPath = path,
      getSchemaDirPath = None,
      validate = None\<rparr>"

definition exampleWorld :: "(string \<times> string) list \<Rightarrow> string list world" where
  "exampleWorld fs = \<lparr>files = map_of fs, readLog = [], writeLog = [], migrationLog = []\<rparr>"

definition exampleProcess :: "(string \<times> string) list \<Rightarrow> string list process" where
  "exampleProcess fs =
     \<lparr>pworld = exampleWorld fs, handles = [], initializedConfigs = Map.empty\<rparr>"

text \<open>
  A config file of the latest version with its schema path comment, and a handle
  on it.
\<close>

definition exampleConfigText :: string where
  "exampleConfigText =
     ''# yaml-language-server: $schema=schemas/provider.json'' @ [NL]
     @ ''version: 3'' @ [NL] @ ''a: 1'' @ [NL]"

definition exampleHandle :: "string list handle" where
  "exampleHandle =
     \<lparr>hData = exampleParse exampleConfigText, hPath = ''d/c.yaml'',
      hConfigString = exampleConfigText, hValidateLatest = accepts (exampleSchema 3)\<rparr>"

text \<open>
  Options whose versions are the strings \<^verbatim>\<open>old\<close> and \<^verbatim>\<open>latest\<close>, with one
  migration and a validator that wants at least one property.
\<close>

definition exampleNamedSchema :: "string \<Rightarrow> string list schema" where
  "exampleNamedSchema v =
     \<lparr>accepts = (\<lambda>c. version c = JString v),
      description = None,
      jsonText = ''{}''\<rparr>"

definition exampleValidate :: "string list config \<Rightarrow> string \<Rightarrow> string option" where
  "exampleValidate c configPath = (if props c = [] then Some ''no properties'' else None)"

definition exampleNamedOptions :: "string \<Rightarrow> string list options" where
  "exampleNamedOptions path =
     \<lparr>allSchemas = [exampleNamedSchema ''old'', exampleNamedSchema ''latest''],
      latestSchema = exampleNamedSchema ''latest'',
      migrations = [exampleMigration 0],
      name = ''provider'',
      getConfigOrConfigDirPath = path,
      getSchemaDirPath = None,
      validate = Some exampleValidate\<rparr>"

section \<open>Splitting, joining and trimming\<close>

lemma flatMapLine_emitLine:
  "i < length ar \<Longrightarrow>
   flatMapLine ar i = emitLine (if i = 0 then None else Some (ar ! (i - 1))) (ar ! i)"
  by (simp add: flatMapLine_def emitLine_def Let_def)

lemma flatMap_suffix:
  "concat (map (flatMapLine (pre @ ls)) [length pre..<length pre + length ls]) =
   fmtFrom (if pre = [] then None else Some (last pre)) ls"
proof (induction ls arbitrary: pre)
  case Nil
  show ?case by simp
next
  case (Cons l ls)
  have step: "flatMapLine (pre @ l # ls) (length pre) =
      emitLine (if pre = [] then None else Some (last pre)) l"
    by (simp add: flatMapLine_emitLine nth_append last_conv_nth)
  have "[length pre..<length pre + Suc (length ls)] =
        length pre # [Suc (length pre)..<length pre + Suc (length ls)]"
    by (rule upt_conv_Cons) simp
  then have "concat (map (flatMapLine (pre @ l # ls)) [length pre..<length pre + length (l # ls)]) =
      flatMapLine (pre @ l # ls) (length pre) @
      concat (map (flatMapLine ((pre @ [l]) @ ls)) [length (pre @ [l])..<length (pre @ [l]) + length ls])"
    by simp
  also have "\<dots> = emitLine (if pre = [] then None else Some (last pre)) l @ fmtFrom (Some l) ls"
    unfolding step Cons.IH [of "pre @ [l]"] by simp
  finally show ?case by simp
qed

lemma flatMap_fmtFrom:
  "concat (map (flatMapLine ar) [0..<length ar]) = fmtFrom None ar"
  using flatMap_suffix [of "[]" ar] by simp

lemma formatConfig_fmtFrom:
  "formatConfig s = trim (joinNL (fmtFrom None (splitNL (trim s)))) @ [NL]"
  by (simp add: formatConfig_def Let_def flatMap_fmtFrom)

lemma isWhiteSpace_NL [simp]: "isWhiteSpace NL"
  by (simp add: isWhiteSpace_def)

lemma trim_Nil [simp]: "trim [] = []"
  by (simp add: trim_def)

lemma last_dropWhile: "dropWhile P xs \<noteq> [] \<Longrightarrow> last (dropWhile P xs) = last xs"
  by (induction xs) (auto split: if_splits)

lemma trim_eq_Nil_iff: "trim s = [] \<longleftrightarrow> (\<forall>c\<in>set s. isWhiteSpace c)"
proof
  assume t: "trim s = []"
  let ?d = "dropWhile isWhiteSpace s"
  have "?d = []"
  proof (rule ccontr)
    assume ne: "?d \<noteq> []"
    then have "\<not> isWhiteSpace (hd ?d)" by (rule hd_dropWhile)
    moreover have "\<forall>c\<in>set ?d. isWhiteSpace c"
    proof -
      from t have "dropWhile isWhiteSpace (rev ?d) = []" by (simp add: trim_def)
      then have "\<forall>c\<in>set (rev ?d). isWhiteSpace c" by (simp only: dropWhile_eq_Nil_conv)
      then show ?thesis by simp
    qed
    ultimately show False using ne by (meson hd_in_set)
  qed
  then show "\<forall>c\<in>set s. isWhiteSpace c" by simp
next
  assume "\<forall>c\<in>set s. isWhiteSpace c"
  then show "trim s = []" by (auto simp: trim_def dest: set_dropWhileD)
qed

lemma trimmed_trim_id: "trimmed s \<Longrightarrow> trim s = s"
proof (cases "s = []")
  case True
  then show ?thesis by simp
next
  case False
  assume "trimmed s"
  with False have h: "\<not> isWhiteSpace (hd s)" and l: "\<not> isWhiteSpace (last s)"
    by (auto simp: trimmed_def)
  from False h have d: "dropWhile isWhiteSpace s = s" by (cases s) auto
  from False l have "dropWhile isWhiteSpace (rev s) = rev s"
    by (cases "rev s") (auto simp: last_rev [symmetric] simp del: last_rev)
  with d show ?thesis by (simp add: trim_def)
qed

lemma trimmed_trim: "trimmed (trim s)"
proof (cases "trim s = []")
  case True
  then show ?thesis by (simp add: trimmed_def)
next
  case False
  let ?d = "dropWhile isWhiteSpace s"
  let ?r = "dropWhile isWhiteSpace (rev ?d)"
  from False have rne: "?r \<noteq> []" by (simp add: trim_def)
  have dne: "?d \<noteq> []"
  proof
    assume "?d = []"
    then have "?r = []" by (simp only: rev.simps dropWhile.simps)
    with rne show False by contradiction
  qed
  have l: "\<not> isWhiteSpace (last (trim s))"
    using rne by (simp add: trim_def last_rev hd_dropWhile)
  have "hd (trim s) = last ?r" using rne by (simp add: trim_def hd_rev)
  also have "\<dots> = last (rev ?d)" using rne by (rule last_dropWhile)
  also have "\<dots> = hd ?d" using dne by (simp add: last_rev)
  finally have "\<not> isWhiteSpace (hd (trim s))" using dne by (simp add: hd_dropWhile)
  with l show ?thesis by (simp add: trimmed_def)
qed

lemma trim_trimmed_NL: "trimmed s \<Longrightarrow> trim (s @ [NL]) = s"
proof (cases "s = []")
  case True
  then show ?thesis by (simp add: trim_def)
next
  case False
  assume t: "trimmed s"
  with False have h: "\<not> isWhiteSpace (hd s)" by (simp add: trimmed_def)
  with False have "dropWhile isWhiteSpace (s @ [NL]) = s @ [NL]" by (cases s) auto
  then have "trim (s @ [NL]) = rev (dropWhile isWhiteSpace (rev s))"
    by (simp add: trim_def)
  also have "\<dots> = trim s" using False h by (cases s) (auto simp: trim_def)
  finally show ?thesis using t by (simp add: trimmed_trim_id)
qed

lemma trim_NL_Cons: "trim (NL # s) = trim s"
  by (simp add: trim_def)

lemma splitNL_not_Nil [simp]: "splitNL s \<noteq> []"
  by (induction s) (auto split: list.splits)

lemma splitNL_Cons:
  "c \<noteq> NL \<Longrightarrow> splitNL (c # cs) = (c # hd (splitNL cs)) # tl (splitNL cs)"
  by (cases "splitNL cs") auto

lemma splitNL_no_NL: "l \<in> set (splitNL s) \<Longrightarrow> NL \<notin> set l"
proof (induction s arbitrary: l)
  case Nil
  then show ?case by simp
next
  case (Cons c cs)
  have ht: "splitNL cs = hd (splitNL cs) # tl (splitNL cs)" by simp
  show ?case
  proof (cases "c = NL")
    case True
    with Cons show ?thesis by auto
  next
    case False
    with Cons.prems have "l = c # hd (splitNL cs) \<or> l \<in> set (tl (splitNL cs))"
      by (simp add: splitNL_Cons del: splitNL.simps)
    then show ?thesis
    proof
      assume "l = c # hd (splitNL cs)"
      moreover have "NL \<notin> set (hd (splitNL cs))" by (rule Cons.IH) simp
      ultimately show ?thesis using False by auto
    next
      assume "l \<in> set (tl (splitNL cs))"
      then have "l \<in> set (splitNL cs)" by (metis ht list.set_intros(2))
      then show ?thesis by (rule Cons.IH)
    qed
  qed
qed

lemma splitNL_line: "NL \<notin> set x \<Longrightarrow> splitNL x = [x]"
  by (induction x) auto

lemma splitNL_append_NL: "NL \<notin> set x \<Longrightarrow> splitNL (x @ NL # r) = x # splitNL r"
  by (induction x) auto


lemma splitNL_joinNL:
  "xs \<noteq> [] \<Longrightarrow> \<forall>l\<in>set xs. NL \<notin> set l \<Longrightarrow> splitNL (joinNL xs) = xs"
  by (induction xs rule: joinNL.induct) (auto simp: splitNL_line splitNL_append_NL)

lemma joinNL_Cons_Cons: "joinNL ((c # h) # t) = c # joinNL (h # t)"
  by (cases t) auto

lemma joinNL_Cons: "xs \<noteq> [] \<Longrightarrow> joinNL (x # xs) = x @ NL # joinNL xs"
  by (cases xs) auto

lemma joinNL_splitNL: "joinNL (splitNL s) = s"
proof (induction s)
  case Nil
  show ?case by simp
next
  case (Cons c cs)
  have ht: "splitNL cs = hd (splitNL cs) # tl (splitNL cs)" by simp
  show ?case
  proof (cases "c = NL")
    case True
    have "joinNL ([] # splitNL cs) = NL # joinNL (splitNL cs)"
      by (simp add: joinNL_Cons)
    with True Cons.IH show ?thesis by simp
  next
    case False
    have "joinNL ((c # hd (splitNL cs)) # tl (splitNL cs)) = c # joinNL (splitNL cs)"
      using ht joinNL_Cons_Cons [of c "hd (splitNL cs)" "tl (splitNL cs)"] by simp
    with False Cons.IH show ?thesis by (simp add: splitNL_Cons del: splitNL.simps)
  qed
qed

lemma joinNL_not_Nil: "xs \<noteq> [] \<Longrightarrow> last xs \<noteq> [] \<Longrightarrow> joinNL xs \<noteq> []"
  by (induction xs rule: joinNL.induct) auto

lemma hd_joinNL: "xs \<noteq> [] \<Longrightarrow> hd xs \<noteq> [] \<Longrightarrow> hd (joinNL xs) = hd (hd xs)"
  by (induction xs rule: joinNL.induct) auto

lemma last_joinNL: "xs \<noteq> [] \<Longrightarrow> last xs \<noteq> [] \<Longrightarrow> last (joinNL xs) = last (last xs)"
  by (induction xs rule: joinNL.induct) (auto simp: joinNL_not_Nil)

lemma joinNL_last_Nil:
  "xs \<noteq> [] \<Longrightarrow> last xs = [] \<Longrightarrow> joinNL xs = [] \<or> last (joinNL xs) = NL"
  by (induction xs rule: joinNL.induct) auto

lemma joinNL_hd_Nil:
  "xs \<noteq> [] \<Longrightarrow> hd xs = [] \<Longrightarrow> joinNL xs = [] \<or> hd (joinNL xs) = NL"
  by (induction xs rule: joinNL.induct) auto

lemma hd_splitNL:
  assumes "s \<noteq> []" "hd s \<noteq> NL"
  shows "hd (splitNL s) \<noteq> [] \<and> hd (hd (splitNL s)) = hd s"
proof -
  have ne: "hd (splitNL s) \<noteq> []"
    using joinNL_hd_Nil [of "splitNL s"] assms by (auto simp: joinNL_splitNL)
  with hd_joinNL [of "splitNL s"] show ?thesis by (simp add: joinNL_splitNL)
qed

lemma last_splitNL:
  assumes "s \<noteq> []" "last s \<noteq> NL"
  shows "last (splitNL s) \<noteq> [] \<and> last (last (splitNL s)) = last s"
proof -
  have ne: "last (splitNL s) \<noteq> []"
    using joinNL_last_Nil [of "splitNL s"] assms by (auto simp: joinNL_splitNL)
  with last_joinNL [of "splitNL s"] show ?thesis by (simp add: joinNL_splitNL)
qed

lemma emitLine_blank [simp]: "trim l = [] \<Longrightarrow> emitLine p l = []"
  by (simp add: emitLine_def)

lemma startsWith_Nil [simp]: "\<not> startsWith [] ''#''"
  by (simp add: startsWith_def)

lemma emitLine_after_blank:
  "trim l \<noteq> [] \<Longrightarrow> emitLine p l = [[], l] \<Longrightarrow> emitLine (Some []) l = [[], l]"
  by (auto simp: emitLine_def split: if_splits option.splits)

lemma blank_not_comment: "trim b = [] \<Longrightarrow> \<not> startsWith b ''#''"
  by (cases b) (auto simp: startsWith_def trim_eq_Nil_iff isWhiteSpace_def)

lemma emitLine_prev_blank:
  "trim b = [] \<Longrightarrow> trim l \<noteq> [] \<Longrightarrow> emitLine (Some b) l = [l] \<Longrightarrow> emitLine q l = [l]"
  by (auto simp: emitLine_def blank_not_comment split: if_splits option.splits)

lemma emitLine_cases:
  "trim l \<noteq> [] \<Longrightarrow> emitLine p l = [l] \<or> emitLine p l = [[], l]"
  by (simp add: emitLine_def)

lemma fmtFrom_idem:
  "q = p \<or> (\<exists>b. p = Some b \<and> trim b = []) \<Longrightarrow> fmtFrom q (fmtFrom p ls) = fmtFrom p ls"
proof (induction ls arbitrary: p q)
  case Nil
  show ?case by simp
next
  case (Cons l ls)
  show ?case
  proof (cases "trim l = []")
    case True
    then have "fmtFrom q (fmtFrom (Some l) ls) = fmtFrom (Some l) ls"
      by (intro Cons.IH) simp
    with True show ?thesis by simp
  next
    case False
    have ih: "fmtFrom (Some l) (fmtFrom (Some l) ls) = fmtFrom (Some l) ls"
      by (intro Cons.IH) simp
    from emitLine_cases [OF False, of p] show ?thesis
    proof
      assume e: "emitLine p l = [l]"
      have "emitLine q l = [l]"
        using Cons.prems e emitLine_prev_blank [OF _ False, of _ q] by auto
      with e ih show ?thesis by simp
    next
      assume e: "emitLine p l = [[], l]"
      then have "emitLine (Some []) l = [[], l]" by (rule emitLine_after_blank [OF False])
      with e ih show ?thesis by simp
    qed
  qed
qed

lemma set_fmtFrom: "set (fmtFrom p ls) \<subseteq> insert [] (set ls)"
proof (induction ls arbitrary: p)
  case Nil
  show ?case by simp
next
  case (Cons l ls)
  have "set (emitLine p l) \<subseteq> {[], l}" by (auto simp: emitLine_def)
  with Cons.IH [of "Some l"] show ?case by auto
qed

lemma last_fmtFrom:
  "ls \<noteq> [] \<Longrightarrow> trim (last ls) \<noteq> [] \<Longrightarrow>
   fmtFrom p ls \<noteq> [] \<and> last (fmtFrom p ls) = last ls"
proof (induction ls arbitrary: p)
  case Nil
  then show ?case by simp
next
  case (Cons l ls)
  show ?case
  proof (cases "ls = []")
    case True
    with Cons.prems emitLine_cases [of l p] show ?thesis by auto
  next
    case False
    with Cons have "fmtFrom (Some l) ls \<noteq> [] \<and> last (fmtFrom (Some l) ls) = last ls"
      by simp
    with False show ?thesis by simp
  qed
qed

lemma formatConfig_idem_aux:
  assumes t: "trimmed t" and ne: "t \<noteq> []"
  defines "out \<equiv> fmtFrom None (splitNL t)"
  defines "body \<equiv> hd (splitNL t) # fmtFrom (Some (hd (splitNL t))) (tl (splitNL t))"
  shows "trim (joinNL out) = joinNL body" and "trimmed (joinNL body)"
    and "splitNL (joinNL body) = body" and "fmtFrom None body = out"
proof -
  obtain l0 ls where ar: "splitNL t = l0 # ls"
    by (cases "splitNL t") auto
  have body: "body = l0 # fmtFrom (Some l0) ls" by (simp add: body_def ar)
  have out: "out = emitLine None l0 @ fmtFrom (Some l0) ls" by (simp add: out_def ar)
  from t ne have h: "\<not> isWhiteSpace (hd t)" and l: "\<not> isWhiteSpace (last t)"
    by (auto simp: trimmed_def)
  from h have hNL: "hd t \<noteq> NL" by auto
  from l have lNL: "last t \<noteq> NL" by auto
  from hd_splitNL [OF ne hNL] have l0: "l0 \<noteq> []" "hd l0 = hd t" by (auto simp: ar)
  from last_splitNL [OF ne lNL]
  have ll: "last (l0 # ls) \<noteq> []" "last (last (l0 # ls)) = last t" by (auto simp: ar)
  from l0 h have nb0: "trim l0 \<noteq> []"
    by (metis hd_in_set trim_eq_Nil_iff)
  from ll l have nbl: "trim (last (l0 # ls)) \<noteq> []"
    by (metis last_in_set trim_eq_Nil_iff)
  have e0: "emitLine None l0 = [l0] \<or> emitLine None l0 = [[], l0]"
    by (rule emitLine_cases [OF nb0])
  then have ob: "out = body \<or> out = [] # body"
    using out body by auto
  have lastbody: "last body = last (l0 # ls)"
  proof (cases "ls = []")
    case True
    then show ?thesis by (simp add: body)
  next
    case False
    have "trim (last ls) \<noteq> []" using nbl False by simp
    from last_fmtFrom [OF False this, of "Some l0"] False show ?thesis
      by (simp add: body)
  qed
  have bne: "body \<noteq> []" by (simp add: body)
  have hdj: "hd (joinNL body) = hd t"
    using hd_joinNL [OF bne] l0 by (simp add: body)
  have lastj: "last (joinNL body) = last t"
    using last_joinNL [OF bne] ll lastbody by simp
  show tb: "trimmed (joinNL body)"
    using hdj lastj h l by (simp add: trimmed_def)
  show "trim (joinNL out) = joinNL body"
    using ob
  proof
    assume "out = body"
    with tb show ?thesis by (simp add: trimmed_trim_id)
  next
    assume "out = [] # body"
    then have "joinNL out = NL # joinNL body" using bne by (simp add: joinNL_Cons)
    with tb show ?thesis by (simp add: trim_NL_Cons trimmed_trim_id)
  qed
  have "\<forall>x\<in>set body. NL \<notin> set x"
  proof
    fix x assume "x \<in> set body"
    then have "x = l0 \<or> x \<in> set (fmtFrom (Some l0) ls)" by (simp add: body)
    then have "x = [] \<or> x \<in> set (l0 # ls)"
      using set_fmtFrom [of "Some l0" ls] by auto
    then show "NL \<notin> set x" using splitNL_no_NL [of x t] by (auto simp: ar)
  qed
  with bne show "splitNL (joinNL body) = body" by (rule splitNL_joinNL)
  have idem: "fmtFrom (Some l0) (fmtFrom (Some l0) ls) = fmtFrom (Some l0) ls"
    by (rule fmtFrom_idem) simp
  show "fmtFrom None body = out"
    using out idem by (simp add: body)
qed

lemma formatConfig_trim: "formatConfig (trim s) = formatConfig s"
  by (simp add: formatConfig_fmtFrom trimmed_trim trimmed_trim_id)

section \<open>The formatter is idempotent\<close>

text \<open>
  Claim C6. For every input string \<open>s\<close>, formatting the formatted text gives the
  formatted text: \<open>formatConfig (formatConfig s) = formatConfig s\<close>.
\<close>

theorem formatConfig_idempotent: "formatConfig (formatConfig s) = formatConfig s"
proof (cases "trim s = []")
  case True
  then have "formatConfig s = [NL]" by (simp add: formatConfig_fmtFrom)
  moreover have "formatConfig [NL] = [NL]" by (simp add: formatConfig_fmtFrom trim_def)
  ultimately show ?thesis by simp
next
  case False
  let ?t = "trim s"
  let ?out = "fmtFrom None (splitNL ?t)"
  let ?body = "hd (splitNL ?t) # fmtFrom (Some (hd (splitNL ?t))) (tl (splitNL ?t))"
  note aux = formatConfig_idem_aux [OF trimmed_trim False]
  have f1: "formatConfig s = joinNL ?body @ [NL]"
    by (simp add: formatConfig_fmtFrom aux(1))
  have "trim (joinNL ?body @ [NL]) = joinNL ?body"
    using aux(2) by (rule trim_trimmed_NL)
  then have "formatConfig (joinNL ?body @ [NL]) = trim (joinNL (fmtFrom None ?body)) @ [NL]"
    by (simp add: formatConfig_fmtFrom aux(3))
  also have "\<dots> = joinNL ?body @ [NL]"
    by (simp only: aux(4) aux(1))
  finally show ?thesis using f1 by simp
qed

theorem formatConfig_idempotent_witness:
  "formatConfig (formatConfig (''# c'' @ [NL] @ ''a: 1'' @ [NL] @ ''b: 2'')) =
   ''# c'' @ [NL] @ ''a: 1'' @ [NL, NL] @ ''b: 2'' @ [NL]"
proof -
  have "formatConfig (''# c'' @ [NL] @ ''a: 1'' @ [NL] @ ''b: 2'') =
        ''# c'' @ [NL] @ ''a: 1'' @ [NL, NL] @ ''b: 2'' @ [NL]"
    by code_simp
  with formatConfig_idempotent [of "''# c'' @ [NL] @ ''a: 1'' @ [NL] @ ''b: 2''"]
  show ?thesis by simp
qed

section \<open>The migration chain\<close>

lemma applyMigrations_log:
  "migrationLog (snd (applyMigrations ims c w)) =
   migrationLog w @
   map (\<lambda>k. (fst (ims ! k), foldl (\<lambda>c m. m c) c (take k (map snd ims)))) [0..<length ims]"
proof (induction ims arbitrary: c w)
  case Nil
  show ?case by simp
next
  case (Cons im ims)
  obtain i m where im: "im = (i, m)" by (cases im)
  show ?case
    unfolding im by (simp add: Cons.IH map_upt_Suc del: upt_Suc)
qed

lemma applyMigrations_result:
  "fst (applyMigrations ims c w) = foldl (\<lambda>c m. m c) c (map snd ims)"
  by (induction ims arbitrary: c w) auto

lemma applyMigrations_frame:
  "files (snd (applyMigrations ims c w)) = files w \<and>
   readLog (snd (applyMigrations ims c w)) = readLog w \<and>
   writeLog (snd (applyMigrations ims c w)) = writeLog w"
  by (induction ims arbitrary: c w) auto

lemma length_enumerate_list [simp]: "length (enumerate_list xs) = length xs"
  by (simp add: enumerate_list_def)

lemma sliceFrom_nat: "sliceFrom (Finite (int V)) xs = drop V xs"
  by simp

lemma nth_enumerate_list: "i < length xs \<Longrightarrow> enumerate_list xs ! i = (i, xs ! i)"
  by (simp add: enumerate_list_def)

lemma map_snd_drop_enumerate: "map snd (drop V (enumerate_list ms)) = drop V ms"
  by (simp add: enumerate_list_def drop_map [symmetric])

lemma migrationLog_slice:
  assumes "V \<le> length ms"
  shows "migrationLog (snd (applyMigrations (drop V (enumerate_list ms)) c w)) =
   migrationLog w @
   map (\<lambda>i. (i, foldl (\<lambda>c m. m c) c (take (i - V) (drop V ms)))) [V..<length ms]"
proof -
  let ?f = "\<lambda>i. (i, foldl (\<lambda>c m. m c) c (take (i - V) (drop V ms)))"
  have len: "length (drop V (enumerate_list ms)) = length ms - V"
    by (simp add: enumerate_list_def)
  have "map (\<lambda>k. (fst (drop V (enumerate_list ms) ! k),
                  foldl (\<lambda>c m. m c) c (take k (map snd (drop V (enumerate_list ms))))))
          [0..<length ms - V] = map (\<lambda>k. ?f (k + V)) [0..<length ms - V]"
    by (rule map_cong) (auto simp: nth_enumerate_list map_snd_drop_enumerate add.commute)
  also have "\<dots> = map ?f (map (\<lambda>k. k + V) [0..<length ms - V])"
    by (simp add: comp_def)
  also have "map (\<lambda>k. k + V) [0..<length ms - V] = [V..<length ms]"
    using assms by (simp add: map_add_upt)
  finally show ?thesis by (simp add: applyMigrations_log len)
qed


lemma migrateConfig_world:
  "snd (migrateConfig e opts cs configPath c w) = w' \<Longrightarrow>
   migrationLog w' = migrationLog (snd (applyMigrations
       (sliceFrom (Number (StringToNumber e) (version c)) (enumerate_list (migrations opts))) c w))"
  by (auto simp: migrateConfig_def Let_def saveConfig_def writeFile_def
           split: prod.splits option.splits if_splits)

text \<open>
  Claim C1, for versions that are not negative. For every config whose version converts to a whole number
  \<open>V\<close> with \<open>0 \<le> V < migrations.length\<close>, \<^verbatim>\<open>migrateConfig\<close> invokes exactly the
  migrations at the indices \<open>V, V + 1, \<dots>, migrations.length - 1\<close>, each once and in
  this order; the first receives the parsed config and each next one the result of
  the one before.
\<close>

theorem migrateConfig_applies_slice:
  assumes "Number (StringToNumber e) (version c) = Finite (int V)"
    and "V < length (migrations opts)"
  shows "migrationLog (snd (migrateConfig e opts configString configPath c w)) =
    migrationLog w @
    map (\<lambda>i. (i, foldl (\<lambda>c m. m c) c (take (i - V) (drop V (migrations opts)))))
      [V..<length (migrations opts)]"
  using assms migrationLog_slice [of V "migrations opts" c w]
    migrateConfig_world [OF refl, of e opts configString configPath c w]
  by simp

theorem migrateConfig_applies_slice_witness:
  "map fst (migrationLog (snd (migrateConfig exampleEnv (exampleOptions ''d/provider.yaml'')
      (''version: 1'' @ [NL] @ ''foo: 1'' @ [NL]) ''d/provider.yaml''
      (exampleParse (''version: 1'' @ [NL] @ ''foo: 1'' @ [NL]))
      (exampleWorld [])))) = [1, 2]"
proof -
  let ?c = "exampleParse (''version: 1'' @ [NL] @ ''foo: 1'' @ [NL])"
  have v: "Number (StringToNumber exampleEnv) (version ?c) = Finite (int 1)"
    by code_simp
  have l: "1 < length (migrations (exampleOptions ''d/provider.yaml''))"
    by (simp add: exampleOptions_def)
  have "length (migrations (exampleOptions ''d/provider.yaml'')) = 3"
    by (simp add: exampleOptions_def)
  moreover have "[1..<3] = [1, 2::nat]" by code_simp
  ultimately show ?thesis
    using migrateConfig_applies_slice [OF v l, of "''version: 1'' @ [NL] @ ''foo: 1'' @ [NL]"
        "''d/provider.yaml''" "exampleWorld []"]
    by (simp add: exampleWorld_def comp_def)
qed

text \<open>
  The claim as stated, for every numeric version below \<^verbatim>\<open>migrations.length\<close>,
  fails at the version \<open>-1\<close>: \<^verbatim>\<open>slice(-1)\<close> is the last migration alone, so of
  the three migrations only the one at index 2 is invoked, and it receives the
  parsed config.
\<close>

theorem migrateConfig_negative_version_counterexample:
  "Number (StringToNumber exampleEnv)
     (version (exampleParse (''version: -1'' @ [NL] @ ''foo: 1'' @ [NL]))) = Finite (- 1)
   \<and> lessThanLength (Finite (- 1)) (length (migrations (exampleOptions ''d/provider.yaml'')))
   \<and> map fst (migrationLog (snd (migrateConfig exampleEnv (exampleOptions ''d/provider.yaml'')
        (''version: -1'' @ [NL] @ ''foo: 1'' @ [NL]) ''d/provider.yaml''
        (exampleParse (''version: -1'' @ [NL] @ ''foo: 1'' @ [NL]))
        (exampleWorld [])))) = [2]
   \<and> map (int \<circ> fst) (migrationLog (snd (migrateConfig exampleEnv
        (exampleOptions ''d/provider.yaml'')
        (''version: -1'' @ [NL] @ ''foo: 1'' @ [NL]) ''d/provider.yaml''
        (exampleParse (''version: -1'' @ [NL] @ ''foo: 1'' @ [NL]))
        (exampleWorld [])))) \<noteq> [- 1, 0, 1, 2]"
  by code_simp

section \<open>Effects on the world\<close>

lemma readFile_effect [simp]:
  "fst (readFile p w) = files w p"
  "files (snd (readFile p w)) = files w"
  "readLog (snd (readFile p w)) = readLog w @ [p]"
  "writeLog (snd (readFile p w)) = writeLog w"
  "migrationLog (snd (readFile p w)) = migrationLog w"
  by (simp_all add: readFile_def)

lemma writeFile_effect [simp]:
  "files (writeFile p c w) = (files w)(p \<mapsto> c)"
  "readLog (writeFile p c w) = readLog w"
  "writeLog (writeFile p c w) = writeLog w @ [(p, c)]"
  "migrationLog (writeFile p c w) = migrationLog w"
  by (simp_all add: writeFile_def)

lemma saveConfig_effect [simp]:
  "fst (saveConfig p s w) = formatConfig s"
  "files (snd (saveConfig p s w)) = (files w)(p \<mapsto> formatConfig s)"
  "readLog (snd (saveConfig p s w)) = readLog w"
  "writeLog (snd (saveConfig p s w)) = writeLog w @ [(p, formatConfig s)]"
  "migrationLog (snd (saveConfig p s w)) = migrationLog w"
  by (simp_all add: saveConfig_def Let_def)

lemma ensureSchema_effect:
  "fst (ensureSchema e opts d w) = pathRelative e d (schemaPathOf e opts d)"
  "files (snd (ensureSchema e opts d w)) =
     (if files w (schemaPathOf e opts d) = Some (correctSchemaContent opts) then files w
      else (files w)(schemaPathOf e opts d \<mapsto> correctSchemaContent opts))"
  "readLog (snd (ensureSchema e opts d w)) = readLog w @ [schemaPathOf e opts d]"
  "writeLog (snd (ensureSchema e opts d w)) =
     writeLog w @ (if files w (schemaPathOf e opts d) = Some (correctSchemaContent opts) then []
                   else [schemaWrite e opts d])"
  "migrationLog (snd (ensureSchema e opts d w)) = migrationLog w"
  by (simp_all add: ensureSchema_def Let_def split_beta schemaWrite_def)

lemma getSchemaPathComment_effect:
  "fst (getSchemaPathComment e opts d w) =
     schemaPathCommentStart @ pathRelative e d (schemaPathOf e opts d)"
  "snd (getSchemaPathComment e opts d w) = snd (ensureSchema e opts d w)"
  by (simp_all add: getSchemaPathComment_def split_beta ensureSchema_effect)

lemma extendsWrites_refl: "writeLog w' = writeLog w \<Longrightarrow> extendsWrites P w w'"
  by (simp add: extendsWrites_def)

lemma extendsWrites_trans:
  "extendsWrites P w w1 \<Longrightarrow> extendsWrites P w1 w2 \<Longrightarrow> extendsWrites P w w2"
  unfolding extendsWrites_def
  by (metis append.assoc list_all_append)

lemma extendsWrites_step:
  "writeLog w' = writeLog w @ [x] \<Longrightarrow> P x \<Longrightarrow> extendsWrites P w w'"
  by (simp add: extendsWrites_def)

lemma extendsWrites_newWrites:
  "extendsWrites P w w' \<Longrightarrow>
   writeLog w' = writeLog w @ newWrites w w' \<and> list_all P (newWrites w w')"
  by (auto simp: extendsWrites_def newWrites_def)

lemma extendsWrites_saveConfig:
  "P (p, formatConfig s) \<Longrightarrow> extendsWrites P w (snd (saveConfig p s w))"
  by (rule extendsWrites_step) simp_all

lemma extendsWrites_ensureSchema:
  "P (schemaWrite e opts d) \<Longrightarrow> extendsWrites P w (snd (ensureSchema e opts d w))"
  by (simp add: extendsWrites_def ensureSchema_effect)

lemma extendsWrites_applyMigrations:
  "extendsWrites P w (snd (applyMigrations ims c w))"
  by (rule extendsWrites_refl) (simp add: applyMigrations_frame)

lemma migrateConfig_effect:
  "snd (migrateConfig e opts cs configPath c w) =
     (let w1 = snd (applyMigrations
                 (sliceFrom (Number (StringToNumber e) (version c))
                    (enumerate_list (migrations opts))) c w)
      in case fst (migrateConfig e opts cs configPath c w) of
           Inl err \<Rightarrow> w1
         | Inr (latestConfig, cs') \<Rightarrow>
             if cs \<noteq> cs' then snd (saveConfig configPath cs' w1) else w1)"
  by (simp add: migrateConfig_def Let_def split_beta split: option.splits)

lemma extendsWrites_migrateConfig:
  assumes "\<And>s. P (configPath, formatConfig s)"
  shows "extendsWrites P w (snd (migrateConfig e opts cs configPath c w))"
proof -
  let ?w1 = "snd (applyMigrations
                 (sliceFrom (Number (StringToNumber e) (version c))
                    (enumerate_list (migrations opts))) c w)"
  have 1: "extendsWrites P w ?w1" by (rule extendsWrites_applyMigrations)
  have 2: "extendsWrites P ?w1 (snd (saveConfig configPath s ?w1))" for s
    by (rule extendsWrites_saveConfig) (rule assms)
  have 3: "extendsWrites P ?w1 ?w1" by (rule extendsWrites_refl) simp
  show ?thesis
    unfolding migrateConfig_effect Let_def
    by (auto split: sum.splits intro: extendsWrites_trans [OF 1 2] extendsWrites_trans [OF 1 3])
qed

lemma readConfigFile_cases:
  "readConfigFile configPath hasDefault w = (r, w') \<Longrightarrow>
   writeLog w' = writeLog w \<and> files w' = files w \<and> migrationLog w' = migrationLog w \<and>
   (case r of
      None \<Rightarrow> files w configPath = None
    | Some (fileContent, configPath') \<Rightarrow>
        files w configPath' = Some fileContent \<and>
        (configPath' = configPath \<or>
         (configPath' = newConfigPath configPath \<and> files w configPath = None)))"
  by (auto simp: readConfigFile_def Let_def split_beta split: option.splits if_splits)

lemma readingExisting_None:
  "readingExisting e opts configPath d hasDefault w = (None, w') \<Longrightarrow>
   fst (readConfigFile configPath hasDefault w) = None \<and>
   w' = snd (readConfigFile configPath hasDefault w)"
  by (auto simp: readingExisting_def Let_def split_beta split: option.splits prod.splits)

lemma readingExisting_unfold:
  "readConfigFile configPath hasDefault w = (Some (fileContent, configPath'), w1) \<Longrightarrow>
   readingExisting e opts configPath d hasDefault w =
   (let cs = withSchemaPathComment
               (schemaPathCommentStart @ pathRelative e d (schemaPathOf e opts d)) fileContent
    in (Some (configPath', cs),
        if cs \<noteq> fileContent
        then snd (saveConfig configPath' cs (snd (ensureSchema e opts d w1)))
        else snd (ensureSchema e opts d w1)))"
  by (simp add: readingExisting_def Let_def split_beta getSchemaPathComment_effect)

lemma readingExisting_unfold_None:
  "readConfigFile configPath hasDefault w = (None, w1) \<Longrightarrow>
   readingExisting e opts configPath d hasDefault w = (None, w1)"
  by (simp add: readingExisting_def)

lemma readingExisting_Some:
  assumes "readingExisting e opts configPath d hasDefault w = (Some (configPath', cs), w')"
  shows "\<exists>fileContent w1.
     readConfigFile configPath hasDefault w = (Some (fileContent, configPath'), w1) \<and>
     cs = withSchemaPathComment
            (schemaPathCommentStart @ pathRelative e d (schemaPathOf e opts d)) fileContent \<and>
     w' = (if cs \<noteq> fileContent
           then snd (saveConfig configPath' cs (snd (ensureSchema e opts d w1)))
           else snd (ensureSchema e opts d w1))"
proof -
  obtain r w1 where rc: "readConfigFile configPath hasDefault w = (r, w1)"
    by (cases "readConfigFile configPath hasDefault w")
  show ?thesis
  proof (cases r)
    case None
    with rc assms show ?thesis by (simp add: readingExisting_unfold_None)
  next
    case (Some fp)
    obtain fc p where fp: "fp = (fc, p)" by (cases fp)
    from rc Some fp have rc': "readConfigFile configPath hasDefault w = (Some (fc, p), w1)"
      by simp
    from assms have "p = configPath'"
      and "cs = withSchemaPathComment
            (schemaPathCommentStart @ pathRelative e d (schemaPathOf e opts d)) fc"
      and "w' = (if cs \<noteq> fc
           then snd (saveConfig configPath' cs (snd (ensureSchema e opts d w1)))
           else snd (ensureSchema e opts d w1))"
      unfolding readingExisting_unfold [OF rc'] Let_def by auto
    with rc' show ?thesis by blast
  qed
qed

section \<open>What the formatter writes\<close>



lemma noConsecutiveBlankLines_fmtFrom:
  "trim x \<noteq> [] \<Longrightarrow> noConsecutiveBlankLines (x # fmtFrom p ls)"
proof (induction ls arbitrary: x p)
  case Nil
  show ?case by simp
next
  case (Cons l ls)
  show ?case
  proof (cases "trim l = []")
    case True
    with Cons show ?thesis by simp
  next
    case False
    from emitLine_cases [OF False, of p] Cons.IH [OF False, of "Some l"] Cons.prems False
    show ?thesis by auto
  qed
qed

lemma formatConfig_blank: "trim s = [] \<Longrightarrow> formatConfig s = [NL]"
  by (simp add: formatConfig_fmtFrom)

lemma formatConfig_body:
  assumes "trim s \<noteq> []"
  defines "ar \<equiv> splitNL (trim s)"
  shows "formatConfig s = joinNL (hd ar # fmtFrom (Some (hd ar)) (tl ar)) @ [NL]"
    and "trimmed (joinNL (hd ar # fmtFrom (Some (hd ar)) (tl ar)))"
    and "splitNL (joinNL (hd ar # fmtFrom (Some (hd ar)) (tl ar))) =
         hd ar # fmtFrom (Some (hd ar)) (tl ar)"
    and "trim (hd ar) \<noteq> []"
proof -
  note aux = formatConfig_idem_aux [OF trimmed_trim assms(1)]
  show "formatConfig s = joinNL (hd ar # fmtFrom (Some (hd ar)) (tl ar)) @ [NL]"
    by (simp add: formatConfig_fmtFrom aux(1) ar_def)
  show "trimmed (joinNL (hd ar # fmtFrom (Some (hd ar)) (tl ar)))"
    unfolding ar_def by (rule aux(2))
  show "splitNL (joinNL (hd ar # fmtFrom (Some (hd ar)) (tl ar))) =
         hd ar # fmtFrom (Some (hd ar)) (tl ar)"
    unfolding ar_def by (rule aux(3))
  have t: "trimmed (trim s)" by (rule trimmed_trim)
  with assms(1) have h: "\<not> isWhiteSpace (hd (trim s))" by (simp add: trimmed_def)
  then have "hd (trim s) \<noteq> NL" by auto
  from hd_splitNL [OF assms(1) this] h show "trim (hd ar) \<noteq> []"
    unfolding ar_def by (metis hd_in_set trim_eq_Nil_iff)
qed

lemma wellFormatted_formatConfig: "wellFormatted (formatConfig s)"
proof (cases "trim s = []")
  case True
  then show ?thesis by (simp add: formatConfig_blank wellFormatted_def trimmed_def)
next
  case False
  note b = formatConfig_body [OF False]
  show ?thesis
    unfolding wellFormatted_def b(1)
    by (simp add: b(2) b(3) noConsecutiveBlankLines_fmtFrom [OF b(4)])
qed


section \<open>Effects of the loader and of commit\<close>

lemma validating_world:
  "snd (validating e opts configPath cs w) =
     (if validateAllConfigVersions opts (parse e cs) \<and>
         lessThanLength (Number (StringToNumber e) (version (parse e cs)))
           (length (migrations opts))
      then snd (migrateConfig e opts cs configPath (parse e cs) w) else w)"
  by (simp add: validating_def Let_def split: prod.splits sum.splits)

lemma validating_path:
  "fst (validating e opts configPath cs w) = Inr (Some h) \<Longrightarrow>
   hPath h = configPath \<and> hValidateLatest h = accepts (latestSchema opts)"
  by (auto simp: validating_def Let_def split: prod.splits sum.splits if_splits)

lemma validating_not_null:
  "fst (validating e opts configPath cs w) \<noteq> Inr None"
  by (auto simp: validating_def Let_def split: prod.splits sum.splits if_splits)

lemma extendsWrites_validating:
  assumes "\<And>s. P (configPath, formatConfig s)"
  shows "extendsWrites P w (snd (validating e opts configPath cs w))"
  unfolding validating_world
  by (simp add: extendsWrites_migrateConfig [of P, OF assms] extendsWrites_refl)

lemma creatingDefault_world:
  "snd (creatingDefault e opts configPath d defConf w) =
   snd (saveConfig configPath (fst (creatingDefault e opts configPath d defConf w))
          (snd (ensureSchema e opts d w)))"
  by (simp add: creatingDefault_def Let_def split_beta getSchemaPathComment_effect)

lemma extendsWrites_creatingDefault:
  assumes "P (schemaWrite e opts d)" and "\<And>s. P (configPath, formatConfig s)"
  shows "extendsWrites P w (snd (creatingDefault e opts configPath d defConf w))"
  unfolding creatingDefault_world
  by (rule extendsWrites_trans [OF extendsWrites_ensureSchema [of P, OF assms(1)]
        extendsWrites_saveConfig [of P, OF assms(2)]])

lemma extendsWrites_readingExisting:
  assumes "P (schemaWrite e opts d)"
    and "\<And>s. P (configPath, formatConfig s)"
    and "\<And>s. P (newConfigPath configPath, formatConfig s)"
  shows "extendsWrites P w (snd (readingExisting e opts configPath d hasDefault w))"
proof -
  obtain r w' where re: "readingExisting e opts configPath d hasDefault w = (r, w')"
    by (cases "readingExisting e opts configPath d hasDefault w")
  show ?thesis
  proof (cases r)
    case None
    from readingExisting_None [OF re [unfolded None]]
    have "w' = snd (readConfigFile configPath hasDefault w)" by simp
    moreover have "writeLog (snd (readConfigFile configPath hasDefault w)) = writeLog w"
      using readConfigFile_cases [OF surjective_pairing] by blast
    ultimately show ?thesis using re by (simp add: extendsWrites_refl)
  next
    case (Some pc)
    obtain configPath' cs where pc: "pc = (configPath', cs)" by (cases pc)
    from readingExisting_Some [OF re [unfolded Some pc]]
    obtain fileContent w1 where
      rc: "readConfigFile configPath hasDefault w = (Some (fileContent, configPath'), w1)" and
      w': "w' = (if cs \<noteq> fileContent
           then snd (saveConfig configPath' cs (snd (ensureSchema e opts d w1)))
           else snd (ensureSchema e opts d w1))"
      by blast
    from readConfigFile_cases [OF rc]
    have wl: "writeLog w1 = writeLog w"
      and cp: "configPath' = configPath \<or> configPath' = newConfigPath configPath"
      by auto
    from cp assms(2,3) have P': "P (configPath', formatConfig s)" for s by auto
    have 0: "extendsWrites P w w1" using wl by (simp add: extendsWrites_refl)
    have 1: "extendsWrites P w1 (snd (ensureSchema e opts d w1))"
      by (rule extendsWrites_ensureSchema [of P, OF assms(1)])
    have 2: "extendsWrites P (snd (ensureSchema e opts d w1))
               (snd (saveConfig configPath' cs (snd (ensureSchema e opts d w1))))"
      by (rule extendsWrites_saveConfig [of P, OF P'])
    have "extendsWrites P w w'"
      unfolding w'
      using extendsWrites_trans [OF 0 1] extendsWrites_trans [OF extendsWrites_trans [OF 0 1] 2]
      by simp
    with re show ?thesis by simp
  qed
qed

lemma getReadonlyConfigInitFunction_unfold:
  "getReadonlyConfigInitFunction e opts getDefaultConfig w =
     (let configPath = fst (getConfigPath e (getConfigOrConfigDirPath opts) (configFullName opts));
          d = snd (getConfigPath e (getConfigOrConfigDirPath opts) (configFullName opts));
          r = readingExisting e opts configPath d (getDefaultConfig \<noteq> None) w
      in case fst r of
           Some (configPath', configString) \<Rightarrow>
             validating e opts configPath' configString (snd r)
         | None \<Rightarrow>
             (case getDefaultConfig of
                None \<Rightarrow> (Inr None, snd r)
              | Some defConf \<Rightarrow>
                  validating e opts configPath
                    (fst (creatingDefault e opts configPath d defConf (snd r)))
                    (snd (creatingDefault e opts configPath d defConf (snd r)))))"
  by (simp add: getReadonlyConfigInitFunction_def Let_def split_beta
           split: prod.splits option.splits)

lemma readingExisting_path:
  "fst (readingExisting e opts configPath d hasDefault w) = Some (configPath', cs) \<Longrightarrow>
   configPath' = configPath \<or> configPath' = newConfigPath configPath"
proof -
  assume a: "fst (readingExisting e opts configPath d hasDefault w) = Some (configPath', cs)"
  then have "readingExisting e opts configPath d hasDefault w =
      (Some (configPath', cs), snd (readingExisting e opts configPath d hasDefault w))"
    by (metis surjective_pairing)
  from readingExisting_Some [OF this]
  obtain fileContent w1 where
    rc: "readConfigFile configPath hasDefault w = (Some (fileContent, configPath'), w1)"
    by blast
  from readConfigFile_cases [OF rc] show ?thesis by auto
qed

lemma extendsWrites_getReadonlyConfigInitFunction:
  assumes "P (schemaWrite e opts
               (snd (getConfigPath e (getConfigOrConfigDirPath opts) (configFullName opts))))"
    and "\<And>p s. P (p, formatConfig s)"
  shows "extendsWrites P w (snd (getReadonlyConfigInitFunction e opts getDefaultConfig w))"
proof -
  let ?cp = "fst (getConfigPath e (getConfigOrConfigDirPath opts) (configFullName opts))"
  let ?d = "snd (getConfigPath e (getConfigOrConfigDirPath opts) (configFullName opts))"
  have 1: "extendsWrites P w (snd (readingExisting e opts ?cp ?d hd w))" for hd
    by (rule extendsWrites_readingExisting [of P, OF assms(1)]) (rule assms(2))+
  have 2: "extendsWrites P w0 (snd (validating e opts p cs w0))" for p cs w0
    by (rule extendsWrites_validating [of P]) (rule assms(2))
  have 3: "extendsWrites P w0 (snd (creatingDefault e opts ?cp ?d dc w0))" for dc w0
    by (rule extendsWrites_creatingDefault [of P, OF assms(1)]) (rule assms(2))
  show ?thesis
    unfolding getReadonlyConfigInitFunction_unfold Let_def
    by (auto split: option.splits
          intro: 1 extendsWrites_trans [OF 1 2] extendsWrites_trans [OF 1 extendsWrites_trans [OF 3 2]])
qed

lemma getConfigInitFunction_world:
  "pworld (snd (getConfigInitFunction e opts getDefaultConfig p)) =
     (case initializedConfigs p
             (fst (getConfigPath e (getConfigOrConfigDirPath opts) (configFullName opts))) of
        Some r \<Rightarrow> pworld p
      | None \<Rightarrow> snd (getReadonlyConfigInitFunction e opts getDefaultConfig (pworld p)))"
  by (simp add: getConfigInitFunction_def Let_def split: option.splits prod.splits sum.splits)

lemma commit_world:
  "pworld (snd (commit e r p)) =
     (if r < length (handles p) \<and> hValidateLatest (handles p ! r) (hData (handles p ! r)) \<and>
         hConfigString (handles p ! r) \<noteq>
           trim (yamlDiffPatch e (hConfigString (handles p ! r))
                   (parse e (hConfigString (handles p ! r))) (hData (handles p ! r))) @ [NL]
      then snd (saveConfig (hPath (handles p ! r))
                  (trim (yamlDiffPatch e (hConfigString (handles p ! r))
                     (parse e (hConfigString (handles p ! r))) (hData (handles p ! r))) @ [NL])
                  (pworld p))
      else pworld p)"
  by (simp add: commit_def Let_def split_beta)

lemma extendsWrites_commit:
  assumes "\<And>p s. P (p, formatConfig s)"
  shows "extendsWrites P (pworld p) (pworld (snd (commit e r p)))"
  unfolding commit_world
  by (simp add: extendsWrites_refl extendsWrites_saveConfig [of P, OF assms])

section \<open>Every config file written is formatted\<close>

text \<open>
  Claim C9. \<^verbatim>\<open>saveConfig\<close> writes \<^verbatim>\<open>formatConfig\<close> of the given text, and that
  text is a trimmed text followed by exactly one line feed, with no two consecutive
  blank lines. Every write of the loader, of the init function and of
  \<^verbatim>\<open>$commit\<close>, the write of the schema file apart, is such a text: it goes
  through \<^verbatim>\<open>saveConfig\<close>.
\<close>

theorem config_writes_are_formatted:
  "fst (saveConfig configPath text w) = formatConfig text
   \<and> newWrites w (snd (saveConfig configPath text w)) = [(configPath, formatConfig text)]
   \<and> files (snd (saveConfig configPath text w)) configPath = Some (formatConfig text)
   \<and> wellFormatted (formatConfig text)
   \<and> (\<forall>x\<in>set (newWrites w (snd (getReadonlyConfigInitFunction e opts getDefaultConfig w))).
         x = schemaWrite e opts
               (snd (getConfigPath e (getConfigOrConfigDirPath opts) (configFullName opts)))
         \<or> wellFormatted (snd x))
   \<and> (\<forall>x\<in>set (newWrites (pworld p)
                    (pworld (snd (getConfigInitFunction e opts getDefaultConfig p)))).
         x = schemaWrite e opts
               (snd (getConfigPath e (getConfigOrConfigDirPath opts) (configFullName opts)))
         \<or> wellFormatted (snd x))
   \<and> (\<forall>x\<in>set (newWrites (pworld p) (pworld (snd (commit e r p)))). wellFormatted (snd x))"
proof -
  let ?sw = "schemaWrite e opts
               (snd (getConfigPath e (getConfigOrConfigDirPath opts) (configFullName opts)))"
  let ?P = "\<lambda>x. x = ?sw \<or> wellFormatted (snd x)"
  have P1: "?P ?sw" by simp
  have P2: "?P (q, formatConfig s)" for q s by (simp add: wellFormatted_formatConfig)
  have load: "extendsWrites ?P w0 (snd (getReadonlyConfigInitFunction e opts getDefaultConfig w0))"
    for w0
    by (rule extendsWrites_getReadonlyConfigInitFunction [of ?P, OF P1 P2])
  have a: "\<forall>x\<in>set (newWrites w (snd (getReadonlyConfigInitFunction e opts getDefaultConfig w))). ?P x"
    using extendsWrites_newWrites [OF load [of w]] by (simp add: list_all_iff)
  have "extendsWrites ?P (pworld p) (pworld (snd (getConfigInitFunction e opts getDefaultConfig p)))"
    unfolding getConfigInitFunction_world
    by (simp add: load extendsWrites_refl split: option.splits)
  then have b: "\<forall>x\<in>set (newWrites (pworld p)
                    (pworld (snd (getConfigInitFunction e opts getDefaultConfig p)))). ?P x"
    using extendsWrites_newWrites by (fastforce simp: list_all_iff)
  have "extendsWrites (\<lambda>x. wellFormatted (snd x)) (pworld p) (pworld (snd (commit e r p)))"
    by (rule extendsWrites_commit) (simp add: wellFormatted_formatConfig)
  then have c: "\<forall>x\<in>set (newWrites (pworld p) (pworld (snd (commit e r p)))). wellFormatted (snd x)"
    using extendsWrites_newWrites by (fastforce simp: list_all_iff)
  have d: "newWrites w (snd (saveConfig configPath text w)) = [(configPath, formatConfig text)]"
    by (simp add: newWrites_def)
  from a b c d show ?thesis by (simp add: wellFormatted_formatConfig)
qed

theorem config_writes_are_formatted_witness:
  "newWrites (exampleWorld [(''d/c.yaml'', ''version: 3'' @ [NL] @ ''a: 1'' @ [NL])])
     (snd (getReadonlyConfigInitFunction exampleEnv (exampleOptions ''d/c.yaml'') None
             (exampleWorld [(''d/c.yaml'', ''version: 3'' @ [NL] @ ''a: 1'' @ [NL])])))
   = [(''d/schemas/provider.json'', ''{}'' @ [NL]),
      (''d/c.yaml'', ''# yaml-language-server: $schema=schemas/provider.json'' @ [NL]
                   @ ''version: 3'' @ [NL, NL] @ ''a: 1'' @ [NL])]
   \<and> wellFormatted (''# yaml-language-server: $schema=schemas/provider.json'' @ [NL]
                   @ ''version: 3'' @ [NL, NL] @ ''a: 1'' @ [NL])"
proof -
  let ?w = "exampleWorld [(''d/c.yaml'', ''version: 3'' @ [NL] @ ''a: 1'' @ [NL])]"
  let ?x = "(''d/c.yaml'', ''# yaml-language-server: $schema=schemas/provider.json'' @ [NL]
                   @ ''version: 3'' @ [NL, NL] @ ''a: 1'' @ [NL])"
  have nw: "newWrites ?w
     (snd (getReadonlyConfigInitFunction exampleEnv (exampleOptions ''d/c.yaml'') None ?w))
   = [(''d/schemas/provider.json'', ''{}'' @ [NL]), ?x]"
    by code_simp
  have ne: "?x \<noteq> schemaWrite exampleEnv (exampleOptions ''d/c.yaml'')
               (snd (getConfigPath exampleEnv (getConfigOrConfigDirPath (exampleOptions ''d/c.yaml''))
                  (configFullName (exampleOptions ''d/c.yaml''))))"
    by code_simp
  from config_writes_are_formatted [of "''d/c.yaml''" "[]" ?w exampleEnv "exampleOptions ''d/c.yaml''" None
      "exampleProcess []" 0]
  have "\<forall>x\<in>set (newWrites ?w
     (snd (getReadonlyConfigInitFunction exampleEnv (exampleOptions ''d/c.yaml'') None ?w))).
       x = schemaWrite exampleEnv (exampleOptions ''d/c.yaml'')
               (snd (getConfigPath exampleEnv (getConfigOrConfigDirPath (exampleOptions ''d/c.yaml''))
                  (configFullName (exampleOptions ''d/c.yaml''))))
       \<or> wellFormatted (snd x)"
    by blast
  with nw ne have "wellFormatted (snd ?x)" by simp
  with nw show ?thesis by simp
qed

section \<open>No write when the text is unchanged\<close>

lemma ensureSchema_frame:
  "extendsWrites (\<lambda>x. x = schemaWrite e opts d) w (snd (ensureSchema e opts d w))"
  "p \<noteq> schemaPathOf e opts d \<Longrightarrow> files (snd (ensureSchema e opts d w)) p = files w p"
  by (simp_all add: extendsWrites_ensureSchema ensureSchema_effect)

lemma migrateConfig_result_text:
  "fst (migrateConfig e opts cs configPath c w) = Inr (latest, cs') \<Longrightarrow>
   snd (migrateConfig e opts cs configPath c w) =
     (let w1 = snd (applyMigrations
                 (sliceFrom (Number (StringToNumber e) (version c))
                    (enumerate_list (migrations opts))) c w)
      in if cs \<noteq> cs' then snd (saveConfig configPath cs' w1) else w1)"
  by (simp add: migrateConfig_effect Let_def)

text \<open>
  Claim C2. In the three places where a config text is computed from a known one,
  nothing is written when the two are equal as strings: the loader leaves a file
  alone whose content is already the text with the right schema path comment (only
  the schema file may be written); \<^verbatim>\<open>migrateConfig\<close> writes nothing when the
  migrated text is the text it was given; \<^verbatim>\<open>$commit\<close> changes neither the files
  nor the handle when the new text is the text of the handle.
\<close>

theorem no_write_when_text_unchanged:
  "(readingExisting e opts configPath d hasDefault w = (Some (configPath', configString), w')
      \<and> files w configPath' = Some configString
    \<longrightarrow> list_all (\<lambda>x. x = schemaWrite e opts d) (newWrites w w')
        \<and> (\<forall>p. p \<noteq> schemaPathOf e opts d \<longrightarrow> files w' p = files w p))
   \<and> (fst (migrateConfig e opts configString configPath c w) = Inr (latestConfig, configString)
    \<longrightarrow> writeLog (snd (migrateConfig e opts configString configPath c w)) = writeLog w
        \<and> files (snd (migrateConfig e opts configString configPath c w)) = files w)
   \<and> (r < length (handles p)
      \<and> trim (yamlDiffPatch e (hConfigString (handles p ! r))
                (parse e (hConfigString (handles p ! r))) (hData (handles p ! r))) @ [NL]
          = hConfigString (handles p ! r)
    \<longrightarrow> snd (commit e r p) = p)"
proof (intro conjI impI)
  assume a: "readingExisting e opts configPath d hasDefault w = (Some (configPath', configString), w')
      \<and> files w configPath' = Some configString"
  from readingExisting_Some [OF conjunct1 [OF a]]
  obtain fileContent w1 where
    rc: "readConfigFile configPath hasDefault w = (Some (fileContent, configPath'), w1)" and
    w': "w' = (if configString \<noteq> fileContent
           then snd (saveConfig configPath' configString (snd (ensureSchema e opts d w1)))
           else snd (ensureSchema e opts d w1))"
    by blast
  from readConfigFile_cases [OF rc] a
  have same: "configString = fileContent" and wl: "writeLog w1 = writeLog w"
    and fl: "files w1 = files w"
    by auto
  from same w' have w'': "w' = snd (ensureSchema e opts d w1)" by simp
  have "extendsWrites (\<lambda>x. x = schemaWrite e opts d) w w'"
    unfolding w''
    by (rule extendsWrites_trans [OF extendsWrites_refl [OF wl] ensureSchema_frame(1)])
  then show "list_all (\<lambda>x. x = schemaWrite e opts d) (newWrites w w')"
    using extendsWrites_newWrites by blast
  show "\<forall>p. p \<noteq> schemaPathOf e opts d \<longrightarrow> files w' p = files w p"
    unfolding w'' by (simp add: ensureSchema_frame(2) fl)
next
  assume a: "fst (migrateConfig e opts configString configPath c w) = Inr (latestConfig, configString)"
  show "writeLog (snd (migrateConfig e opts configString configPath c w)) = writeLog w"
    unfolding migrateConfig_result_text [OF a] by (simp add: applyMigrations_frame)
next
  assume a: "fst (migrateConfig e opts configString configPath c w) = Inr (latestConfig, configString)"
  show "files (snd (migrateConfig e opts configString configPath c w)) = files w"
    unfolding migrateConfig_result_text [OF a] by (simp add: applyMigrations_frame)
next
  assume "r < length (handles p)
      \<and> trim (yamlDiffPatch e (hConfigString (handles p ! r))
                (parse e (hConfigString (handles p ! r))) (hData (handles p ! r))) @ [NL]
          = hConfigString (handles p ! r)"
  then show "snd (commit e r p) = p"
    by (simp add: commit_def Let_def)
qed

theorem no_write_when_text_unchanged_witness:
  "list_all (\<lambda>x. x = schemaWrite exampleEnv (exampleOptions ''d/c.yaml'') ''d'')
     (newWrites (exampleWorld [(''d/c.yaml'', exampleConfigText)])
        (snd (readingExisting exampleEnv (exampleOptions ''d/c.yaml'') ''d/c.yaml'' ''d'' False
                (exampleWorld [(''d/c.yaml'', exampleConfigText)]))))
   \<and> files (snd (readingExisting exampleEnv (exampleOptions ''d/c.yaml'') ''d/c.yaml'' ''d'' False
                (exampleWorld [(''d/c.yaml'', exampleConfigText)]))) ''d/c.yaml''
       = Some exampleConfigText
   \<and> writeLog (snd (migrateConfig exampleEnv (exampleOptions ''d/c.yaml'') exampleConfigText
                  ''d/c.yaml'' (exampleParse exampleConfigText) (exampleWorld []))) = []
   \<and> snd (commit exampleEnv 0
            \<lparr>pworld = exampleWorld [], handles = [exampleHandle],
             initializedConfigs = Map.empty\<rparr>)
       = \<lparr>pworld = exampleWorld [], handles = [exampleHandle], initializedConfigs = Map.empty\<rparr>"
proof -
  let ?w = "exampleWorld [(''d/c.yaml'', exampleConfigText)] :: string list world"
  let ?opts = "exampleOptions ''d/c.yaml''"
  let ?p = "\<lparr>pworld = exampleWorld [], handles = [exampleHandle],
             initializedConfigs = Map.empty\<rparr> :: string list process"
  let ?re = "readingExisting exampleEnv ?opts ''d/c.yaml'' ''d'' False ?w"
  have "fst ?re = Some (''d/c.yaml'', exampleConfigText)" by code_simp
  then have h1: "?re = (Some (''d/c.yaml'', exampleConfigText), snd ?re)"
    by (metis surjective_pairing)
  have h2: "files ?w ''d/c.yaml'' = Some exampleConfigText" by code_simp
  have h3: "''d/c.yaml'' \<noteq> schemaPathOf exampleEnv ?opts ''d''" by code_simp
  have h4: "fst (migrateConfig exampleEnv ?opts exampleConfigText ''d/c.yaml''
                   (exampleParse exampleConfigText) (exampleWorld []))
            = Inr (exampleParse exampleConfigText, exampleConfigText)"
    by code_simp
  have h5: "0 < length (handles ?p)" by simp
  have h6: "trim (yamlDiffPatch exampleEnv (hConfigString (handles ?p ! 0))
                (parse exampleEnv (hConfigString (handles ?p ! 0))) (hData (handles ?p ! 0))) @ [NL]
          = hConfigString (handles ?p ! 0)"
    by code_simp
  have w0: "writeLog (exampleWorld [] :: string list world) = []"
    by (simp add: exampleWorld_def)
  note inst = no_write_when_text_unchanged [where e = exampleEnv and opts = ?opts
      and configPath = "''d/c.yaml''" and d = "''d''" and hasDefault = False and w = ?w
      and configPath' = "''d/c.yaml''" and configString = exampleConfigText and w' = "snd ?re"
      and r = 0 and p = ?p]
  from inst h1 h2 have
    a: "list_all (\<lambda>x. x = schemaWrite exampleEnv ?opts ''d'') (newWrites ?w (snd ?re))"
    and b: "\<forall>p. p \<noteq> schemaPathOf exampleEnv ?opts ''d'' \<longrightarrow> files (snd ?re) p = files ?w p"
    by blast+
  from b h3 h2 have b': "files (snd ?re) ''d/c.yaml'' = Some exampleConfigText" by simp
  from no_write_when_text_unchanged [where e = exampleEnv and opts = ?opts
      and configPath = "''d/c.yaml''" and configString = exampleConfigText
      and c = "exampleParse exampleConfigText" and w = "exampleWorld []"
      and latestConfig = "exampleParse exampleConfigText"] h4 w0
  have c: "writeLog (snd (migrateConfig exampleEnv ?opts exampleConfigText
                  ''d/c.yaml'' (exampleParse exampleConfigText) (exampleWorld []))) = []"
    by simp
  from inst h5 h6 have d: "snd (commit exampleEnv 0 ?p) = ?p" by blast
  from a b' c d show ?thesis by blast
qed

section \<open>Commit of an invalid handle\<close>

lemma getReadonlyConfigInitFunction_handle:
  assumes "fst (getReadonlyConfigInitFunction e opts getDefaultConfig w) = Inr (Some h)"
  shows "hValidateLatest h = accepts (latestSchema opts)"
    and "hPath h = fst (getConfigPath e (getConfigOrConfigDirPath opts) (configFullName opts))
         \<or> hPath h = newConfigPath
               (fst (getConfigPath e (getConfigOrConfigDirPath opts) (configFullName opts)))"
proof -
  let ?cp = "fst (getConfigPath e (getConfigOrConfigDirPath opts) (configFullName opts))"
  let ?d = "snd (getConfigPath e (getConfigOrConfigDirPath opts) (configFullName opts))"
  let ?r = "readingExisting e opts ?cp ?d (getDefaultConfig \<noteq> None) w"
  from assms have
    "(\<exists>p cs w1. fst ?r = Some (p, cs) \<and> fst (validating e opts p cs w1) = Inr (Some h))
     \<or> (\<exists>cs w1. fst (validating e opts ?cp cs w1) = Inr (Some h))"
    unfolding getReadonlyConfigInitFunction_unfold Let_def
    by (auto split: option.splits)
  then have "hValidateLatest h = accepts (latestSchema opts) \<and>
      (hPath h = ?cp \<or> hPath h = newConfigPath ?cp)"
    using validating_path readingExisting_path by blast
  then show "hValidateLatest h = accepts (latestSchema opts)"
    and "hPath h = ?cp \<or> hPath h = newConfigPath ?cp"
    by simp_all
qed

lemma getConfigInitFunction_miss:
  assumes "initializedConfigs p
             (fst (getConfigPath e (getConfigOrConfigDirPath opts) (configFullName opts))) = None"
    and "getConfigInitFunction e opts getDefaultConfig p = (Inr (Some r), p')"
  shows "\<exists>h. fst (getReadonlyConfigInitFunction e opts getDefaultConfig (pworld p)) = Inr (Some h)
           \<and> r = length (handles p)
           \<and> handles p' = handles p @ [h]
           \<and> initializedConfigs p' = (initializedConfigs p)(hPath h \<mapsto> r)
           \<and> pworld p' = snd (getReadonlyConfigInitFunction e opts getDefaultConfig (pworld p))"
  using assms
  by (auto simp: getConfigInitFunction_def Let_def split: prod.splits sum.splits option.splits)

text \<open>
  Claim C4. When the data of a handle fails the handle's validator, \<^verbatim>\<open>$commit\<close>
  throws an \<^verbatim>\<open>Error\<close> to its caller, which is not the fatal reporter, and leaves
  everything as it was: the files, the log of writes and the text kept by the
  handle. The validator of a handle that the init function has just created is
  that of the latest schema.
\<close>

theorem commit_invalid_throws:
  "(r < length (handles p) \<and> \<not> hValidateLatest (handles p ! r) (hData (handles p ! r))
    \<longrightarrow> commit e r p = (Inl (Thrown (''Couldn't save config '' @ hPath (handles p ! r))), p))
   \<and> (initializedConfigs p0
         (fst (getConfigPath e (getConfigOrConfigDirPath opts) (configFullName opts))) = None
      \<and> getConfigInitFunction e opts getDefaultConfig p0 = (Inr (Some r0), p1)
    \<longrightarrow> r0 < length (handles p1)
        \<and> hValidateLatest (handles p1 ! r0) = accepts (latestSchema opts))"
proof (intro conjI impI)
  assume "r < length (handles p) \<and> \<not> hValidateLatest (handles p ! r) (hData (handles p ! r))"
  then show "commit e r p = (Inl (Thrown (''Couldn't save config '' @ hPath (handles p ! r))), p)"
    by (simp add: commit_def Let_def)
next
  assume a: "initializedConfigs p0
         (fst (getConfigPath e (getConfigOrConfigDirPath opts) (configFullName opts))) = None
      \<and> getConfigInitFunction e opts getDefaultConfig p0 = (Inr (Some r0), p1)"
  from getConfigInitFunction_miss [OF conjunct1 [OF a] conjunct2 [OF a]]
  obtain h where h: "fst (getReadonlyConfigInitFunction e opts getDefaultConfig (pworld p0))
        = Inr (Some h)" "r0 = length (handles p0)" "handles p1 = handles p0 @ [h]"
    by blast
  from h(2,3) show "r0 < length (handles p1)" by simp
  from h(2,3) getReadonlyConfigInitFunction_handle(1) [OF h(1)]
  show "hValidateLatest (handles p1 ! r0) = accepts (latestSchema opts)" by simp
qed

theorem commit_invalid_throws_witness:
  "commit exampleEnv 0
     (assignData 0 \<lparr>version = JNumber (Finite 2), props = [''a: 1'']\<rparr>
        (snd (getConfigInitFunction exampleEnv (exampleOptions ''d/c.yaml'') None
                (exampleProcess [(''d/c.yaml'', exampleConfigText)]))))
   = (Inl (Thrown ''Couldn't save config d/c.yaml''),
      assignData 0 \<lparr>version = JNumber (Finite 2), props = [''a: 1'']\<rparr>
        (snd (getConfigInitFunction exampleEnv (exampleOptions ''d/c.yaml'') None
                (exampleProcess [(''d/c.yaml'', exampleConfigText)]))))
   \<and> hValidateLatest
        (handles (snd (getConfigInitFunction exampleEnv (exampleOptions ''d/c.yaml'') None
                         (exampleProcess [(''d/c.yaml'', exampleConfigText)]))) ! 0)
       = accepts (latestSchema (exampleOptions ''d/c.yaml''))"
proof -
  let ?opts = "exampleOptions ''d/c.yaml''"
  let ?p0 = "exampleProcess [(''d/c.yaml'', exampleConfigText)]"
  let ?init = "getConfigInitFunction exampleEnv ?opts None ?p0"
  let ?p2 = "assignData 0 \<lparr>version = JNumber (Finite 2), props = [''a: 1'']\<rparr> (snd ?init)"
  have h1: "0 < length (handles ?p2)" by code_simp
  have h2: "\<not> hValidateLatest (handles ?p2 ! 0) (hData (handles ?p2 ! 0))" by code_simp
  have h3: "hPath (handles ?p2 ! 0) = ''d/c.yaml''" by code_simp
  have h4: "initializedConfigs ?p0
         (fst (getConfigPath exampleEnv (getConfigOrConfigDirPath ?opts) (configFullName ?opts)))
         = None"
    by code_simp
  have "fst ?init = Inr (Some 0)" by code_simp
  then have h5: "?init = (Inr (Some 0), snd ?init)" by (metis surjective_pairing)
  from commit_invalid_throws [where r = 0 and p = ?p2 and e = exampleEnv] h1 h2 h3
  have a: "commit exampleEnv 0 ?p2 = (Inl (Thrown ''Couldn't save config d/c.yaml''), ?p2)"
    by simp
  from commit_invalid_throws [where e = exampleEnv and opts = ?opts and ?p0.0 = ?p0
      and getDefaultConfig = None and ?r0.0 = 0 and ?p1.0 = "snd ?init"] h4 h5
  have b: "hValidateLatest (handles (snd ?init) ! 0) = accepts (latestSchema ?opts)"
    by blast
  from a b show ?thesis by blast
qed

section \<open>A missing file without a default config\<close>

lemma readConfigFile_missing:
  "files w configPath = None \<Longrightarrow> files w (newConfigPath configPath) = None \<Longrightarrow>
   readConfigFile configPath False w =
     (None, w\<lparr>readLog := readLog w @ [configPath, newConfigPath configPath]\<rparr>)"
  by (simp add: readConfigFile_def readFile_def Let_def)

text \<open>
  Claim C8. When neither the config path nor the path with the other extension has
  a file and there is no default config, the loader returns \<^verbatim>\<open>null\<close>: no error,
  no fatal report and no write, only the two failed reads. The init function of a
  mutable config returns \<^verbatim>\<open>null\<close> as well and creates no handle.
\<close>

theorem missing_file_without_default_is_null:
  "(files w (fst (getConfigPath e (getConfigOrConfigDirPath opts) (configFullName opts))) = None
    \<and> files w (newConfigPath
         (fst (getConfigPath e (getConfigOrConfigDirPath opts) (configFullName opts)))) = None
    \<longrightarrow> getReadonlyConfigInitFunction e opts None w =
          (Inr None,
           w\<lparr>readLog := readLog w @
              [fst (getConfigPath e (getConfigOrConfigDirPath opts) (configFullName opts)),
               newConfigPath
                 (fst (getConfigPath e (getConfigOrConfigDirPath opts) (configFullName opts)))]\<rparr>))
   \<and> (files (pworld p)
         (fst (getConfigPath e (getConfigOrConfigDirPath opts) (configFullName opts))) = None
    \<and> files (pworld p) (newConfigPath
         (fst (getConfigPath e (getConfigOrConfigDirPath opts) (configFullName opts)))) = None
    \<and> initializedConfigs p
         (fst (getConfigPath e (getConfigOrConfigDirPath opts) (configFullName opts))) = None
    \<longrightarrow> fst (getConfigInitFunction e opts None p) = Inr None
        \<and> handles (snd (getConfigInitFunction e opts None p)) = handles p
        \<and> initializedConfigs (snd (getConfigInitFunction e opts None p)) = initializedConfigs p
        \<and> files (pworld (snd (getConfigInitFunction e opts None p))) = files (pworld p)
        \<and> writeLog (pworld (snd (getConfigInitFunction e opts None p))) = writeLog (pworld p))"
proof -
  let ?cp = "fst (getConfigPath e (getConfigOrConfigDirPath opts) (configFullName opts))"
  let ?d = "snd (getConfigPath e (getConfigOrConfigDirPath opts) (configFullName opts))"
  have ro: "getReadonlyConfigInitFunction e opts None w0 =
          (Inr None, w0\<lparr>readLog := readLog w0 @ [?cp, newConfigPath ?cp]\<rparr>)"
    if "files w0 ?cp = None" "files w0 (newConfigPath ?cp) = None" for w0
  proof -
    from readConfigFile_missing [OF that]
    have "readingExisting e opts ?cp ?d False w0 =
        (None, w0\<lparr>readLog := readLog w0 @ [?cp, newConfigPath ?cp]\<rparr>)"
      by (rule readingExisting_unfold_None)
    then show ?thesis
      by (simp add: getReadonlyConfigInitFunction_unfold Let_def)
  qed
  have "fst (getConfigInitFunction e opts None p) = Inr None
        \<and> handles (snd (getConfigInitFunction e opts None p)) = handles p
        \<and> initializedConfigs (snd (getConfigInitFunction e opts None p)) = initializedConfigs p
        \<and> files (pworld (snd (getConfigInitFunction e opts None p))) = files (pworld p)
        \<and> writeLog (pworld (snd (getConfigInitFunction e opts None p))) = writeLog (pworld p)"
    if "files (pworld p) ?cp = None" "files (pworld p) (newConfigPath ?cp) = None"
      "initializedConfigs p ?cp = None"
    using ro [OF that(1,2)] that(3) by (simp add: getConfigInitFunction_def Let_def)
  with ro show ?thesis by blast
qed

theorem missing_file_without_default_is_null_witness:
  "fst (getReadonlyConfigInitFunction exampleEnv (exampleOptions ''d/c.yaml'') None
          (exampleWorld [])) = Inr None
   \<and> writeLog (snd (getReadonlyConfigInitFunction exampleEnv (exampleOptions ''d/c.yaml'') None
          (exampleWorld []))) = []
   \<and> readLog (snd (getReadonlyConfigInitFunction exampleEnv (exampleOptions ''d/c.yaml'') None
          (exampleWorld []))) = [''d/c.yaml'', ''d/c.yml'']
   \<and> fst (getConfigInitFunction exampleEnv (exampleOptions ''d/c.yaml'') None
          (exampleProcess [])) = Inr None"
proof -
  let ?opts = "exampleOptions ''d/c.yaml''"
  let ?cp = "fst (getConfigPath exampleEnv (getConfigOrConfigDirPath ?opts) (configFullName ?opts))"
  let ?w = "exampleWorld [] :: string list world"
  have cp: "?cp = ''d/c.yaml''" by code_simp
  have ncp: "newConfigPath ''d/c.yaml'' = ''d/c.yml''" by code_simp
  have h1: "files ?w ?cp = None" by code_simp
  have h2: "files ?w (newConfigPath ?cp) = None" by code_simp
  have h3: "files (pworld (exampleProcess [])) ?cp = None" by code_simp
  have h4: "files (pworld (exampleProcess [])) (newConfigPath ?cp) = None" by code_simp
  have h5: "initializedConfigs (exampleProcess []) ?cp = None" by code_simp
  from missing_file_without_default_is_null [where e = exampleEnv and opts = ?opts and w = ?w
      and p = "exampleProcess []"] h1 h2
  have a: "getReadonlyConfigInitFunction exampleEnv ?opts None ?w =
          (Inr None, ?w\<lparr>readLog := readLog ?w @ [?cp, newConfigPath ?cp]\<rparr>)"
    by blast
  from missing_file_without_default_is_null [where e = exampleEnv and opts = ?opts and w = ?w
      and p = "exampleProcess []"] h3 h4 h5
  have b: "fst (getConfigInitFunction exampleEnv ?opts None (exampleProcess [])) = Inr None"
    by blast
  have "readLog ?w = []" "writeLog ?w = []" by (simp_all add: exampleWorld_def)
  with a b show ?thesis by (simp add: cp ncp)
qed

section \<open>A version that is not a number\<close>

lemma readingExisting_migrationLog:
  "migrationLog (snd (readingExisting e opts configPath d hasDefault w)) = migrationLog w"
proof -
  obtain r w1 where rc: "readConfigFile configPath hasDefault w = (r, w1)"
    by (cases "readConfigFile configPath hasDefault w")
  from readConfigFile_cases [OF rc] have m: "migrationLog w1 = migrationLog w" by simp
  show ?thesis
  proof (cases r)
    case None
    with rc m show ?thesis by (simp add: readingExisting_unfold_None)
  next
    case (Some fp)
    obtain fc p where "fp = (fc, p)" by (cases fp)
    with rc Some have "readConfigFile configPath hasDefault w = (Some (fc, p), w1)" by simp
    from readingExisting_unfold [OF this] m show ?thesis
      by (simp add: Let_def ensureSchema_effect)
  qed
qed

text \<open>
  Claim C10. When the version of the parsed config is a string that converts to
  \<^verbatim>\<open>NaN\<close>, the test \<^verbatim>\<open>Number(config.version) < migrations.length\<close> is false and
  the loader invokes no migration and writes nothing after parsing. A config that
  no version's schema alone accepts ends in the fatal report; otherwise the config
  is checked as it is: when the latest schema rejects it, or when there is a
  validator and it returns an error string, the loader ends in the fatal report,
  and otherwise it returns the handle of the parsed config itself.
\<close>

theorem non_numeric_version_skips_migration:
  assumes "version (parse e configString) = JString s"
    and "StringToNumber e s = NaN"
  shows "\<not> lessThanLength (Number (StringToNumber e) (version (parse e configString)))
           (length (migrations opts))
    \<and> validating e opts configPath configString w =
       (if \<not> validateAllConfigVersions opts (parse e configString)
        then (Inl (Fatal (''Invalid config at '' @ configPath)), w)
        else if \<not> accepts (latestSchema opts) (parse e configString)
        then (Inl (Fatal (''Invalid config '' @ configPath)), w)
        else case validate opts of
               None \<Rightarrow>
                 (Inr (Some \<lparr>hData = parse e configString, hPath = configPath,
                              hConfigString = configString,
                              hValidateLatest = accepts (latestSchema opts)\<rparr>), w)
             | Some v \<Rightarrow>
                 (case v (parse e configString) configPath of
                    Some err \<Rightarrow>
                      (Inl (Fatal (''Invalid config '' @ configPath @ ''. Errors: '' @ err)), w)
                  | None \<Rightarrow>
                      (Inr (Some \<lparr>hData = parse e configString, hPath = configPath,
                                   hConfigString = configString,
                                   hValidateLatest = accepts (latestSchema opts)\<rparr>), w)))
    \<and> (fst (readingExisting e opts
                (fst (getConfigPath e (getConfigOrConfigDirPath opts) (configFullName opts)))
                (snd (getConfigPath e (getConfigOrConfigDirPath opts) (configFullName opts)))
                (getDefaultConfig \<noteq> None) w0) = Some (configPath, configString)
         \<longrightarrow> migrationLog (snd (getReadonlyConfigInitFunction e opts getDefaultConfig w0))
             = migrationLog w0)"
proof (intro conjI impI)
  show nlt: "\<not> lessThanLength (Number (StringToNumber e) (version (parse e configString)))
           (length (migrations opts))"
    using assms by simp
  then show "validating e opts configPath configString w =
       (if \<not> validateAllConfigVersions opts (parse e configString)
        then (Inl (Fatal (''Invalid config at '' @ configPath)), w)
        else if \<not> accepts (latestSchema opts) (parse e configString)
        then (Inl (Fatal (''Invalid config '' @ configPath)), w)
        else case validate opts of
               None \<Rightarrow>
                 (Inr (Some \<lparr>hData = parse e configString, hPath = configPath,
                              hConfigString = configString,
                              hValidateLatest = accepts (latestSchema opts)\<rparr>), w)
             | Some v \<Rightarrow>
                 (case v (parse e configString) configPath of
                    Some err \<Rightarrow>
                      (Inl (Fatal (''Invalid config '' @ configPath @ ''. Errors: '' @ err)), w)
                  | None \<Rightarrow>
                      (Inr (Some \<lparr>hData = parse e configString, hPath = configPath,
                                   hConfigString = configString,
                                   hValidateLatest = accepts (latestSchema opts)\<rparr>), w)))"
    by (simp add: validating_def ensureConfigIsValidLatest_def maybeValidationError_def Let_def
          split: option.splits)
  assume "fst (readingExisting e opts
                (fst (getConfigPath e (getConfigOrConfigDirPath opts) (configFullName opts)))
                (snd (getConfigPath e (getConfigOrConfigDirPath opts) (configFullName opts)))
                (getDefaultConfig \<noteq> None) w0) = Some (configPath, configString)"
  then show "migrationLog (snd (getReadonlyConfigInitFunction e opts getDefaultConfig w0))
             = migrationLog w0"
    using nlt
    by (simp add: getReadonlyConfigInitFunction_unfold Let_def validating_world
          readingExisting_migrationLog)
qed

theorem non_numeric_version_skips_migration_witness:
  "validating exampleEnv (exampleNamedOptions ''d/c.yaml'') ''d/c.yaml''
     (''version: latest'' @ [NL] @ ''a: 1'' @ [NL]) (exampleWorld [])
   = (Inr (Some \<lparr>hData = \<lparr>version = JString ''latest'', props = [''a: 1'']\<rparr>,
                  hPath = ''d/c.yaml'',
                  hConfigString = ''version: latest'' @ [NL] @ ''a: 1'' @ [NL],
                  hValidateLatest = accepts (latestSchema (exampleNamedOptions ''d/c.yaml''))\<rparr>),
      exampleWorld [])
   \<and> validating exampleEnv (exampleNamedOptions ''d/c.yaml'') ''d/c.yaml''
       (''version: old'' @ [NL] @ ''a: 1'' @ [NL]) (exampleWorld [])
     = (Inl (Fatal ''Invalid config d/c.yaml''), exampleWorld [])
   \<and> validating exampleEnv (exampleNamedOptions ''d/c.yaml'') ''d/c.yaml''
       (''version: latest'' @ [NL]) (exampleWorld [])
     = (Inl (Fatal ''Invalid config d/c.yaml. Errors: no properties''), exampleWorld [])
   \<and> migrationLog (snd (getReadonlyConfigInitFunction exampleEnv
        (exampleNamedOptions ''d/c.yaml'') None
        (exampleWorld [(''d/c.yaml'',
           ''# yaml-language-server: $schema=schemas/provider.json'' @ [NL]
           @ ''version: latest'' @ [NL] @ ''a: 1'' @ [NL])]))) = []"
proof -
  let ?opts = "exampleNamedOptions ''d/c.yaml''"
  let ?cs = "''version: latest'' @ [NL] @ ''a: 1'' @ [NL]"
  let ?old = "''version: old'' @ [NL] @ ''a: 1'' @ [NL]"
  let ?bare = "''version: latest'' @ [NL]"
  let ?cs' = "''# yaml-language-server: $schema=schemas/provider.json'' @ [NL]
           @ ''version: latest'' @ [NL] @ ''a: 1'' @ [NL]"
  let ?w0 = "exampleWorld [(''d/c.yaml'', ?cs')] :: string list world"
  have n: "StringToNumber exampleEnv ''latest'' = NaN" "StringToNumber exampleEnv ''old'' = NaN"
    by code_simp+
  have v: "validate ?opts = Some exampleValidate" by (simp add: exampleNamedOptions_def)
  have p1: "parse exampleEnv ?cs = \<lparr>version = JString ''latest'', props = [''a: 1'']\<rparr>"
    by code_simp
  have a1: "version (parse exampleEnv ?cs) = JString ''latest''"
    "validateAllConfigVersions ?opts (parse exampleEnv ?cs)"
    "accepts (latestSchema ?opts) (parse exampleEnv ?cs)"
    "exampleValidate (parse exampleEnv ?cs) ''d/c.yaml'' = None"
    by code_simp+
  have a2: "version (parse exampleEnv ?old) = JString ''old''"
    "validateAllConfigVersions ?opts (parse exampleEnv ?old)"
    "\<not> accepts (latestSchema ?opts) (parse exampleEnv ?old)"
    by code_simp+
  have a3: "version (parse exampleEnv ?bare) = JString ''latest''"
    "validateAllConfigVersions ?opts (parse exampleEnv ?bare)"
    "accepts (latestSchema ?opts) (parse exampleEnv ?bare)"
    "exampleValidate (parse exampleEnv ?bare) ''d/c.yaml'' = Some ''no properties''"
    by code_simp+
  have a4: "version (parse exampleEnv ?cs') = JString ''latest''" by code_simp
  have h5: "fst (readingExisting exampleEnv ?opts
                (fst (getConfigPath exampleEnv (getConfigOrConfigDirPath ?opts) (configFullName ?opts)))
                (snd (getConfigPath exampleEnv (getConfigOrConfigDirPath ?opts) (configFullName ?opts)))
                (None \<noteq> (None :: string option)) ?w0) = Some (''d/c.yaml'', ?cs')"
    by code_simp
  from conjunct1 [OF conjunct2 [OF non_numeric_version_skips_migration [OF a1(1) n(1),
      of ?opts "''d/c.yaml''" "exampleWorld []"]]] a1 v p1
  have r1: "validating exampleEnv ?opts ''d/c.yaml'' ?cs (exampleWorld [])
   = (Inr (Some \<lparr>hData = \<lparr>version = JString ''latest'', props = [''a: 1'']\<rparr>,
                  hPath = ''d/c.yaml'', hConfigString = ?cs,
                  hValidateLatest = accepts (latestSchema ?opts)\<rparr>),
      exampleWorld [])"
    by simp
  from conjunct1 [OF conjunct2 [OF non_numeric_version_skips_migration [OF a2(1) n(2),
      of ?opts "''d/c.yaml''" "exampleWorld []"]]] a2
  have r2: "validating exampleEnv ?opts ''d/c.yaml'' ?old (exampleWorld [])
     = (Inl (Fatal ''Invalid config d/c.yaml''), exampleWorld [])"
    by simp
  from conjunct1 [OF conjunct2 [OF non_numeric_version_skips_migration [OF a3(1) n(1),
      of ?opts "''d/c.yaml''" "exampleWorld []"]]] a3 v
  have r3: "validating exampleEnv ?opts ''d/c.yaml'' ?bare (exampleWorld [])
     = (Inl (Fatal ''Invalid config d/c.yaml. Errors: no properties''), exampleWorld [])"
    by simp
  from non_numeric_version_skips_migration [OF a4 n(1), where opts = ?opts
      and configPath = "''d/c.yaml''" and getDefaultConfig = None and ?w0.0 = ?w0] h5
  have "migrationLog (snd (getReadonlyConfigInitFunction exampleEnv ?opts None ?w0))
        = migrationLog ?w0"
    by blast
  then have r4: "migrationLog (snd (getReadonlyConfigInitFunction exampleEnv ?opts None ?w0)) = []"
    by (simp add: exampleWorld_def)
  from r1 r2 r3 r4 show ?thesis by blast
qed

section \<open>The extension fallback\<close>

lemma endsWith_append [simp]: "endsWith (base @ suf) suf"
  by (simp add: endsWith_def)

lemma not_endsWith_yml_yaml: "\<not> endsWith (base @ ''.yml'') ''.yaml''"
proof (cases base rule: rev_cases)
  case Nil
  then show ?thesis by (simp add: endsWith_def)
next
  case (snoc bs b)
  then show ?thesis by (simp add: endsWith_def)
qed

lemma newConfigPath_yaml: "newConfigPath (base @ ''.'' @ YAML_EXT) = base @ ''.'' @ YML_EXT"
  using endsWith_append [of base "''.yaml''"]
  by (simp add: newConfigPath_def YAML_EXT_def YML_EXT_def Let_def)

lemma newConfigPath_yml: "newConfigPath (base @ ''.'' @ YML_EXT) = base @ ''.'' @ YAML_EXT"
  using not_endsWith_yml_yaml [of base]
  by (simp add: newConfigPath_def YAML_EXT_def YML_EXT_def Let_def)

lemma readConfigFile_fallback:
  assumes "files w configPath = None"
    and "files w (newConfigPath configPath) = Some fileContent"
    and "endsWith configPath (''.'' @ YAML_EXT) \<or> endsWith configPath (''.'' @ YML_EXT)"
  shows "readConfigFile configPath hasDefault w =
     (Some (fileContent, newConfigPath configPath),
      w\<lparr>readLog := readLog w @ [configPath, newConfigPath configPath]\<rparr>)"
  using assms by (auto simp: readConfigFile_def readFile_def Let_def)

lemma migrateConfig_readLog:
  "readLog (snd (migrateConfig e opts cs configPath c w)) = readLog w"
  unfolding migrateConfig_effect Let_def
  by (simp add: applyMigrations_frame split: sum.splits prod.splits)

lemma validating_readLog:
  "readLog (snd (validating e opts configPath cs w)) = readLog w"
  unfolding validating_world by (simp add: migrateConfig_readLog)

lemma validating_result:
  "(\<exists>msg. fst (validating e opts configPath cs w) = Inl (Fatal msg))
   \<or> (\<exists>h. fst (validating e opts configPath cs w) = Inr (Some h) \<and> hPath h = configPath)"
  by (auto simp: validating_def migrateConfig_def ensureConfigIsValidLatest_def Let_def split_beta
           split: option.splits)

text \<open>
  Claim C5. When the config path ends in \<^verbatim>\<open>.yaml\<close>, has no file, and the path
  with \<^verbatim>\<open>.yml\<close> in its place has one (or the other way round), the loader reads
  the failing path, then the other path once, then the schema file, and nothing
  else. The config string is made of the content of the other file; the loader
  ends in a fatal report or in a handle whose \<^verbatim>\<open>$getPath\<close> is the other path,
  and every write it makes, the schema file apart, is to the other path.
\<close>

theorem extension_fallback_resolves_sibling:
  assumes ext: "(ext = YAML_EXT \<and> other = YML_EXT) \<or> (ext = YML_EXT \<and> other = YAML_EXT)"
    and cp: "getConfigPath e (getConfigOrConfigDirPath opts) (configFullName opts)
             = (base @ ''.'' @ ext, d)"
    and missing: "files w (base @ ''.'' @ ext) = None"
    and sibling: "files w (base @ ''.'' @ other) = Some fileContent"
  shows "newReads w (snd (getReadonlyConfigInitFunction e opts getDefaultConfig w)) =
           [base @ ''.'' @ ext, base @ ''.'' @ other, schemaPathOf e opts d]
    \<and> fst (readingExisting e opts (base @ ''.'' @ ext) d (getDefaultConfig \<noteq> None) w) =
        Some (base @ ''.'' @ other,
              withSchemaPathComment
                (schemaPathCommentStart @ pathRelative e d (schemaPathOf e opts d)) fileContent)
    \<and> (case fst (getReadonlyConfigInitFunction e opts getDefaultConfig w) of
          Inl (Fatal msg) \<Rightarrow> True
        | Inl (Thrown msg) \<Rightarrow> False
        | Inr None \<Rightarrow> False
        | Inr (Some h) \<Rightarrow> hPath h = base @ ''.'' @ other)
    \<and> (\<forall>x\<in>set (newWrites w (snd (getReadonlyConfigInitFunction e opts getDefaultConfig w))).
          x = schemaWrite e opts d \<or> fst x = base @ ''.'' @ other)"
proof -
  let ?cp = "base @ ''.'' @ ext"
  let ?sp = "base @ ''.'' @ other"
  let ?hd = "getDefaultConfig \<noteq> None"
  let ?comment = "schemaPathCommentStart @ pathRelative e d (schemaPathOf e opts d)"
  let ?cs = "withSchemaPathComment ?comment fileContent"
  let ?w1 = "w\<lparr>readLog := readLog w @ [?cp, ?sp]\<rparr>"
  let ?w2 = "snd (ensureSchema e opts d ?w1)"
  let ?w3 = "if ?cs \<noteq> fileContent then snd (saveConfig ?sp ?cs ?w2) else ?w2"
  let ?P = "\<lambda>x. x = schemaWrite e opts d \<or> fst x = ?sp"
  from ext have ncp: "newConfigPath ?cp = ?sp"
    using newConfigPath_yaml [of base] newConfigPath_yml [of base] by auto
  from ext have ends: "endsWith ?cp (''.'' @ YAML_EXT) \<or> endsWith ?cp (''.'' @ YML_EXT)"
    by auto
  from sibling have sibling': "files w (newConfigPath ?cp) = Some fileContent"
    by (simp only: ncp)
  have rc: "readConfigFile ?cp ?hd w = (Some (fileContent, ?sp), ?w1)"
    using readConfigFile_fallback [OF missing sibling' ends, of ?hd] by (simp only: ncp)
  have re: "readingExisting e opts ?cp d ?hd w = (Some (?sp, ?cs), ?w3)"
    using readingExisting_unfold [OF rc, of e opts d] by (simp add: Let_def)
  have load: "getReadonlyConfigInitFunction e opts getDefaultConfig w =
      validating e opts ?sp ?cs ?w3"
    using cp re by (simp add: getReadonlyConfigInitFunction_def)
  have r3: "readLog ?w3 = readLog w @ [?cp, ?sp, schemaPathOf e opts d]"
    by (simp add: ensureSchema_effect)
  have reads: "newReads w (snd (getReadonlyConfigInitFunction e opts getDefaultConfig w)) =
           [?cp, ?sp, schemaPathOf e opts d]"
    unfolding load newReads_def validating_readLog r3 by simp
  have 1: "extendsWrites ?P w ?w1" by (rule extendsWrites_refl) simp
  have 2: "extendsWrites ?P ?w1 ?w2" by (rule extendsWrites_ensureSchema) simp
  have 3: "extendsWrites ?P ?w2 ?w3"
    by (simp add: extendsWrites_refl extendsWrites_saveConfig)
  have 4: "extendsWrites ?P ?w3 (snd (validating e opts ?sp ?cs ?w3))"
    by (rule extendsWrites_validating) simp
  have "extendsWrites ?P w (snd (validating e opts ?sp ?cs ?w3))"
    by (rule extendsWrites_trans [OF extendsWrites_trans [OF extendsWrites_trans [OF 1 2] 3] 4])
  then have writes: "\<forall>x\<in>set (newWrites w
        (snd (getReadonlyConfigInitFunction e opts getDefaultConfig w))). ?P x"
    unfolding load using extendsWrites_newWrites by (fastforce simp: list_all_iff)
  have res: "case fst (getReadonlyConfigInitFunction e opts getDefaultConfig w) of
          Inl (Fatal msg) \<Rightarrow> True
        | Inl (Thrown msg) \<Rightarrow> False
        | Inr None \<Rightarrow> False
        | Inr (Some h) \<Rightarrow> hPath h = ?sp"
    unfolding load using validating_result [of e opts ?sp ?cs ?w3] by auto
  from reads re res writes show ?thesis by simp
qed

theorem extension_fallback_resolves_sibling_witness:
  "newReads (exampleWorld [(''d/c.yml'', ''version: 3'' @ [NL] @ ''a: 1'' @ [NL])])
     (snd (getReadonlyConfigInitFunction exampleEnv (exampleOptions ''d/c.yaml'') None
             (exampleWorld [(''d/c.yml'', ''version: 3'' @ [NL] @ ''a: 1'' @ [NL])])))
   = [''d/c.yaml'', ''d/c.yml'', ''d/schemas/provider.json'']
   \<and> fst (readingExisting exampleEnv (exampleOptions ''d/c.yaml'') ''d/c.yaml'' ''d'' False
            (exampleWorld [(''d/c.yml'', ''version: 3'' @ [NL] @ ''a: 1'' @ [NL])]))
       = Some (''d/c.yml'', exampleConfigText)
   \<and> map fst (newWrites (exampleWorld [(''d/c.yml'', ''version: 3'' @ [NL] @ ''a: 1'' @ [NL])])
        (snd (getReadonlyConfigInitFunction exampleEnv (exampleOptions ''d/c.yaml'') None
             (exampleWorld [(''d/c.yml'', ''version: 3'' @ [NL] @ ''a: 1'' @ [NL])]))))
       = [''d/schemas/provider.json'', ''d/c.yml'']"
proof -
  let ?fc = "''version: 3'' @ [NL] @ ''a: 1'' @ [NL]"
  let ?w = "exampleWorld [(''d/c.yml'', ?fc)] :: string list world"
  let ?opts = "exampleOptions ''d/c.yaml''"
  have ext: "(YAML_EXT = YAML_EXT \<and> YML_EXT = YML_EXT) \<or> (YAML_EXT = YML_EXT \<and> YML_EXT = YAML_EXT)"
    by simp
  have cp: "getConfigPath exampleEnv (getConfigOrConfigDirPath ?opts) (configFullName ?opts)
             = (''d/c'' @ ''.'' @ YAML_EXT, ''d'')"
    by code_simp
  have missing: "files ?w (''d/c'' @ ''.'' @ YAML_EXT) = None" by code_simp
  have sibling: "files ?w (''d/c'' @ ''.'' @ YML_EXT) = Some ?fc" by code_simp
  have sp: "schemaPathOf exampleEnv ?opts ''d'' = ''d/schemas/provider.json''" by code_simp
  have cs: "withSchemaPathComment
              (schemaPathCommentStart @ pathRelative exampleEnv ''d'' (schemaPathOf exampleEnv ?opts ''d''))
              ?fc = exampleConfigText"
    by code_simp
  have wr: "map fst (newWrites ?w (snd (getReadonlyConfigInitFunction exampleEnv ?opts None ?w)))
       = [''d/schemas/provider.json'', ''d/c.yml'']"
    by code_simp
  from extension_fallback_resolves_sibling [OF ext cp missing sibling, of None]
  have "newReads ?w (snd (getReadonlyConfigInitFunction exampleEnv ?opts None ?w)) =
           [''d/c'' @ ''.'' @ YAML_EXT, ''d/c'' @ ''.'' @ YML_EXT, schemaPathOf exampleEnv ?opts ''d'']"
    and "fst (readingExisting exampleEnv ?opts (''d/c'' @ ''.'' @ YAML_EXT) ''d'' (None \<noteq> (None :: string option)) ?w) =
        Some (''d/c'' @ ''.'' @ YML_EXT,
              withSchemaPathComment
                (schemaPathCommentStart @ pathRelative exampleEnv ''d'' (schemaPathOf exampleEnv ?opts ''d''))
                ?fc)"
    by blast+
  with sp cs wr show ?thesis by (simp add: YAML_EXT_def YML_EXT_def)
qed

section \<open>The instance cache\<close>

lemma getConfigInitFunction_hit:
  "initializedConfigs p
     (fst (getConfigPath e (getConfigOrConfigDirPath opts) (configFullName opts))) = Some r \<Longrightarrow>
   getConfigInitFunction e opts getDefaultConfig p = (Inr (Some r), p)"
  by (simp add: getConfigInitFunction_def)

text \<open>
  When the loader resolved the requested path itself, the next call of the init
  function returns the same handle and changes nothing.
\<close>

lemma getConfigInitFunction_twice_same_path:
  assumes miss: "initializedConfigs p
             (fst (getConfigPath e (getConfigOrConfigDirPath opts) (configFullName opts))) = None"
    and first: "getConfigInitFunction e opts getDefaultConfig p = (Inr (Some r1), p1)"
    and same: "hPath (handles p1 ! r1) =
             fst (getConfigPath e (getConfigOrConfigDirPath opts) (configFullName opts))"
  shows "getConfigInitFunction e opts getDefaultConfig p1 = (Inr (Some r1), p1)"
proof -
  from getConfigInitFunction_miss [OF miss first]
  obtain h where h: "r1 = length (handles p)" "handles p1 = handles p @ [h]"
    "initializedConfigs p1 = (initializedConfigs p)(hPath h \<mapsto> r1)"
    by blast
  from h(1,2) have "handles p1 ! r1 = h" by simp
  with same h(3) have "initializedConfigs p1
      (fst (getConfigPath e (getConfigOrConfigDirPath opts) (configFullName opts))) = Some r1"
    by simp
  then show ?thesis by (rule getConfigInitFunction_hit)
qed

text \<open>
  Claim C3, where it fails. The cache is looked up at the requested path and filled
  at the resolved path. When the first call resolved the path to the file with the
  other extension, the second call misses the cache, runs the loader again and
  returns a new handle: an assignment through the first handle does not show
  through the second.
\<close>

theorem cache_miss_after_extension_fallback:
  assumes miss: "initializedConfigs p
             (fst (getConfigPath e (getConfigOrConfigDirPath opts) (configFullName opts))) = None"
    and first: "getConfigInitFunction e opts getDefaultConfig p = (Inr (Some r1), p1)"
    and fallback: "hPath (handles p1 ! r1) \<noteq>
             fst (getConfigPath e (getConfigOrConfigDirPath opts) (configFullName opts))"
    and second: "getConfigInitFunction e opts getDefaultConfig p1 = (Inr (Some r2), p2)"
  shows "r2 \<noteq> r1 \<and> r2 = length (handles p1) \<and> r2 < length (handles p2)
    \<and> hData (handles (assignData r1 c p2) ! r1) = c
    \<and> hData (handles (assignData r1 c p2) ! r2) = hData (handles p2 ! r2)"
proof -
  let ?cp = "fst (getConfigPath e (getConfigOrConfigDirPath opts) (configFullName opts))"
  from getConfigInitFunction_miss [OF miss first]
  obtain h where h: "r1 = length (handles p)" "handles p1 = handles p @ [h]"
    "initializedConfigs p1 = (initializedConfigs p)(hPath h \<mapsto> r1)"
    by blast
  from h(1,2) have "handles p1 ! r1 = h" by simp
  with fallback h(3) miss have miss1: "initializedConfigs p1 ?cp = None" by simp
  from getConfigInitFunction_miss [OF miss1 second]
  obtain h2 where h2: "r2 = length (handles p1)" "handles p2 = handles p1 @ [h2]"
    by blast
  from h(1,2) h2 have "r2 = Suc r1" and "r1 < length (handles p2)" and "r2 < length (handles p2)"
    by simp_all
  then show ?thesis
    using h2(1) by (simp add: assignData_def)
qed

theorem cache_miss_after_extension_fallback_witness:
  "fst (getConfigInitFunction exampleEnv (exampleOptions ''d/c.yaml'') None
          (exampleProcess [(''d/c.yml'', exampleConfigText)])) = Inr (Some 0)
   \<and> fst (getConfigInitFunction exampleEnv (exampleOptions ''d/c.yaml'') None
          (snd (getConfigInitFunction exampleEnv (exampleOptions ''d/c.yaml'') None
                  (exampleProcess [(''d/c.yml'', exampleConfigText)])))) = Inr (Some 1)
   \<and> hData (handles
        (assignData 0 \<lparr>version = JNumber (Finite 3), props = [''a: 2'']\<rparr>
           (snd (getConfigInitFunction exampleEnv (exampleOptions ''d/c.yaml'') None
              (snd (getConfigInitFunction exampleEnv (exampleOptions ''d/c.yaml'') None
                      (exampleProcess [(''d/c.yml'', exampleConfigText)])))))) ! 1)
       = \<lparr>version = JNumber (Finite 3), props = [''a: 1'']\<rparr>"
proof -
  let ?opts = "exampleOptions ''d/c.yaml''"
  let ?p = "exampleProcess [(''d/c.yml'', exampleConfigText)]"
  let ?c1 = "getConfigInitFunction exampleEnv ?opts None ?p"
  let ?c2 = "getConfigInitFunction exampleEnv ?opts None (snd ?c1)"
  have miss: "initializedConfigs ?p
      (fst (getConfigPath exampleEnv (getConfigOrConfigDirPath ?opts) (configFullName ?opts))) = None"
    by code_simp
  have f1: "fst ?c1 = Inr (Some 0)" by code_simp
  then have first: "?c1 = (Inr (Some 0), snd ?c1)" by (metis surjective_pairing)
  have fallback: "hPath (handles (snd ?c1) ! 0) \<noteq>
      fst (getConfigPath exampleEnv (getConfigOrConfigDirPath ?opts) (configFullName ?opts))"
    by code_simp
  have f2: "fst ?c2 = Inr (Some 1)" by code_simp
  then have second: "?c2 = (Inr (Some 1), snd ?c2)" by (metis surjective_pairing)
  have d: "hData (handles (snd ?c2) ! 1) = \<lparr>version = JNumber (Finite 3), props = [''a: 1'']\<rparr>"
    by code_simp
  from cache_miss_after_extension_fallback [OF miss first fallback second,
      of "\<lparr>version = JNumber (Finite 3), props = [''a: 2'']\<rparr>"]
  have "hData (handles (assignData 0 \<lparr>version = JNumber (Finite 3), props = [''a: 2'']\<rparr> (snd ?c2)) ! 1)
        = hData (handles (snd ?c2) ! 1)"
    by blast
  with f1 f2 d show ?thesis by simp
qed

section \<open>The schema path comment\<close>



lemma trimEnd_Nil [simp]: "trimEnd [] = []"
  by (simp add: trimEnd_def)

lemma nonBlankLines_Nil [simp]: "nonBlankLines [] = []"
  by (simp add: nonBlankLines_def)















end
